theory Spec2Isabelle
  imports Main "HOL-Library.Char_ord" "HOL-Library.List_Lexorder"
begin

section \<open>Python values and dictionaries\<close>

text \<open>
  The values the program stores under the annotation \<^verbatim>\<open>Any\<close>: \<^verbatim>\<open>None\<close>, strings,
  integers, lists and dictionaries with string keys. A dictionary is an association
  list in insertion order, the order in which Python iterates over it.
\<close>

datatype pyval =
    PNone
  | PStr string
  | PInt int
  | PList "pyval list"
  | PDict "(string \<times> pyval) list"

type_synonym pydict = "(string \<times> pyval) list"

text \<open>Truth value of an object, as \<^verbatim>\<open>if x\<close>, \<^verbatim>\<open>not x\<close> and \<^verbatim>\<open>x or y\<close> test it.\<close>

fun truthy :: "pyval \<Rightarrow> bool" where
  "truthy PNone = False"
| "truthy (PStr s) = (s \<noteq> [])"
| "truthy (PInt n) = (n \<noteq> 0)"
| "truthy (PList xs) = (xs \<noteq> [])"
| "truthy (PDict d) = (d \<noteq> [])"

text \<open>\<^verbatim>\<open>d.get(k)\<close>: the value stored under \<open>k\<close>, if any.\<close>

definition dict_get :: "('k \<times> 'v) list \<Rightarrow> 'k \<Rightarrow> 'v option" where
  "dict_get d k = map_of d k"

text \<open>
  \<^verbatim>\<open>d[k] = v\<close>: an existing key keeps its position and gets the new value, a new key
  is appended.
\<close>

fun dict_set :: "'k \<Rightarrow> 'v \<Rightarrow> ('k \<times> 'v) list \<Rightarrow> ('k \<times> 'v) list" where
  "dict_set k v [] = [(k, v)]"
| "dict_set k v (p # ps) = (if fst p = k then (k, v) # ps else p # dict_set k v ps)"

text \<open>\<^verbatim>\<open>d.values()\<close>, in iteration order.\<close>

definition dict_values :: "('k \<times> 'v) list \<Rightarrow> 'v list" where
  "dict_values d = map snd d"

text \<open>
  Exceptions. \<open>Collaborator\<close> is any exception (a subclass of \<^verbatim>\<open>Exception\<close>) raised by
  the memory client; \<open>Cancelled\<close> is one that is a \<^verbatim>\<open>BaseException\<close> only (the
  \<^verbatim>\<open>CancelledError\<close> of asyncio, \<^verbatim>\<open>KeyboardInterrupt\<close>), which \<^verbatim>\<open>except Exception\<close> does not
  catch. \<open>Ill_typed\<close> is not a Python exception: it marks a value whose type departs
  from the annotation of the attribute it is stored into; the typed records below do
  not represent such objects.
\<close>

datatype exn =
    KeyError string
  | TypeError
  | AttributeError
  | Collaborator string
  | Cancelled string
  | Ill_typed string

text \<open>What a handler \<^verbatim>\<open>except Exception\<close> catches.\<close>

fun is_Exception :: "exn \<Rightarrow> bool" where
  "is_Exception (Cancelled _) = False"
| "is_Exception (Ill_typed _) = False"
| "is_Exception _ = True"

datatype 'a outcome = Raised exn | Returned 'a

text \<open>Sequencing of computations that may raise.\<close>

definition bnd :: "exn + 'a \<Rightarrow> ('a \<Rightarrow> exn + 'b) \<Rightarrow> exn + 'b" where
  "bnd m f = (case m of Inl e \<Rightarrow> Inl e | Inr x \<Rightarrow> f x)"

text \<open>\<^verbatim>\<open>data[k]\<close>: raises \<^verbatim>\<open>KeyError\<close> on a missing key.\<close>

definition subscript :: "pydict \<Rightarrow> string \<Rightarrow> exn + pyval" where
  "subscript d k = (case dict_get d k of None \<Rightarrow> Inl (KeyError k) | Some v \<Rightarrow> Inr v)"

text \<open>Reading a value at the type an attribute is annotated with.\<close>

fun as_str :: "string \<Rightarrow> pyval \<Rightarrow> exn + string" where
  "as_str k (PStr s) = Inr s"
| "as_str k v = Inl (Ill_typed k)"

fun as_int :: "string \<Rightarrow> pyval \<Rightarrow> exn + int" where
  "as_int k (PInt n) = Inr n"
| "as_int k v = Inl (Ill_typed k)"

fun as_strs :: "string \<Rightarrow> pyval list \<Rightarrow> exn + string list" where
  "as_strs k [] = Inr []"
| "as_strs k (PStr s # vs) = bnd (as_strs k vs) (\<lambda>ss. Inr (s # ss))"
| "as_strs k (v # vs) = Inl (Ill_typed k)"

fun as_str_list :: "string \<Rightarrow> pyval \<Rightarrow> exn + string list" where
  "as_str_list k (PList vs) = as_strs k vs"
| "as_str_list k v = Inl (Ill_typed k)"

fun as_dict :: "string \<Rightarrow> pyval \<Rightarrow> exn + pydict" where
  "as_dict k (PDict d) = Inr d"
| "as_dict k v = Inl (Ill_typed k)"

text \<open>The same for the annotations \<^verbatim>\<open>Optional[List[str]]\<close>, \<^verbatim>\<open>Optional[Dict[str, Any]]\<close>
  and \<^verbatim>\<open>Optional[str]\<close>, where \<^verbatim>\<open>None\<close> is a value of the type.\<close>

fun as_opt_str_list :: "string \<Rightarrow> pyval \<Rightarrow> exn + string list option" where
  "as_opt_str_list k PNone = Inr None"
| "as_opt_str_list k v = bnd (as_str_list k v) (\<lambda>ss. Inr (Some ss))"

fun as_opt_dict :: "string \<Rightarrow> pyval \<Rightarrow> exn + pydict option" where
  "as_opt_dict k PNone = Inr None"
| "as_opt_dict k (PDict d) = Inr (Some d)"
| "as_opt_dict k v = Inl (Ill_typed k)"

fun as_opt_str :: "string \<Rightarrow> pyval \<Rightarrow> exn + string option" where
  "as_opt_str k PNone = Inr None"
| "as_opt_str k (PStr s) = Inr (Some s)"
| "as_opt_str k v = Inl (Ill_typed k)"

text \<open>\<^verbatim>\<open>None\<close> or a string, as a value.\<close>

definition opt_str_val :: "string option \<Rightarrow> pyval" where
  "opt_str_val x = (case x of None \<Rightarrow> PNone | Some s \<Rightarrow> PStr s)"

section \<open>Tasks (core/task.py)\<close>

text \<open>
  The attributes of \<^verbatim>\<open>Task\<close>, at the types of their annotations. \<open>id_t\<close> is the
  attribute \<^verbatim>\<open>id\<close> and \<open>context_t\<close> the attribute \<^verbatim>\<open>context\<close>; \<open>created_at\<close> is the
  ISO-8601 string of \<^verbatim>\<open>datetime.now().isoformat()\<close>;
  \<open>result\<close> is \<^verbatim>\<open>None\<close> until a handler stores a progress record there.
\<close>

record task =
  id_t :: string
  description :: string
  requirements :: "string list"
  required_capabilities :: "string list"
  priority :: int
  dependencies :: "string list"
  context_t :: pydict
  status :: string
  created_at :: string
  assigned_to :: "string option"
  result :: pyval

text \<open>\<^verbatim>\<open>x or []\<close> and \<^verbatim>\<open>x or {}\<close> for an optional list or dictionary \<open>x\<close>.\<close>

definition or_empty :: "'a list option \<Rightarrow> 'a list" where
  "or_empty x = (case x of None \<Rightarrow> [] | Some xs \<Rightarrow> if xs = [] then [] else xs)"

text \<open>
  \<^verbatim>\<open>Task.__init__\<close>. The first two arguments are what the constructor draws from its
  environment: the string of \<^verbatim>\<open>uuid.uuid4()\<close> and the clock reading.
\<close>

definition Task_init ::
  "string \<Rightarrow> string \<Rightarrow> string \<Rightarrow> string list \<Rightarrow> string list option \<Rightarrow> int \<Rightarrow>
   string list option \<Rightarrow> pydict option \<Rightarrow> task" where
  "Task_init uuid4 now descr reqs req_caps prio deps ctx =
     \<lparr> id_t = uuid4,
       description = descr,
       requirements = reqs,
       required_capabilities = or_empty req_caps,
       priority = prio,
       dependencies = or_empty deps,
       context_t = or_empty ctx,
       status = ''pending'',
       created_at = now,
       assigned_to = None,
       result = PNone \<rparr>"

text \<open>\<^verbatim>\<open>Task.to_dict\<close>.\<close>

definition to_dict :: "task \<Rightarrow> pydict" where
  "to_dict t =
     [ (''id'', PStr (id_t t)),
       (''description'', PStr (description t)),
       (''requirements'', PList (map PStr (requirements t))),
       (''required_capabilities'', PList (map PStr (required_capabilities t))),
       (''priority'', PInt (priority t)),
       (''dependencies'', PList (map PStr (dependencies t))),
       (''context'', PDict (context_t t)),
       (''status'', PStr (status t)),
       (''created_at'', PStr (created_at t)),
       (''assigned_to'', opt_str_val (assigned_to t)),
       (''result'', result t) ]"

text \<open>\<^verbatim>\<open>data.get(k)\<close> and \<^verbatim>\<open>data.get(k, default)\<close> as values.\<close>

definition get_or :: "pydict \<Rightarrow> string \<Rightarrow> pyval \<Rightarrow> pyval" where
  "get_or d k dflt = (case dict_get d k of None \<Rightarrow> dflt | Some v \<Rightarrow> v)"

text \<open>
  \<^verbatim>\<open>Task.from_dict\<close>: the constructor call with its six arguments, then the five
  overrides, in the source's order of evaluation. The first two arguments are the
  constructor's environment, as for \<open>Task_init\<close>.
\<close>

definition from_dict :: "string \<Rightarrow> string \<Rightarrow> pydict \<Rightarrow> exn + task" where
  "from_dict uuid4 now data =
     bnd (bnd (subscript data ''description'') (as_str ''description'')) (\<lambda>descr.
     bnd (bnd (subscript data ''requirements'') (as_str_list ''requirements'')) (\<lambda>reqs.
     bnd (as_opt_str_list ''required_capabilities''
            (get_or data ''required_capabilities'' PNone)) (\<lambda>req_caps.
     bnd (as_int ''priority'' (get_or data ''priority'' (PInt 1))) (\<lambda>prio.
     bnd (as_opt_str_list ''dependencies'' (get_or data ''dependencies'' PNone)) (\<lambda>deps.
     bnd (as_opt_dict ''context'' (get_or data ''context'' PNone)) (\<lambda>ctx.
     let t = Task_init uuid4 now descr reqs req_caps prio deps ctx in
     bnd (bnd (subscript data ''id'') (as_str ''id'')) (\<lambda>i.
     bnd (bnd (subscript data ''status'') (as_str ''status'')) (\<lambda>st.
     bnd (bnd (subscript data ''created_at'') (as_str ''created_at'')) (\<lambda>cr.
     bnd (as_opt_str ''assigned_to'' (get_or data ''assigned_to'' PNone)) (\<lambda>asg.
     Inr (t\<lparr> id_t := i, status := st, created_at := cr, assigned_to := asg,
              result := get_or data ''result'' PNone \<rparr>)))))))))))"

section \<open>The task queue (core/task.py)\<close>

text \<open>
  \<^verbatim>\<open>TaskQueue.tasks\<close>: a dictionary from task ID to task, in insertion order.
\<close>

type_synonym task_queue = "(string \<times> task) list"

text \<open>\<^verbatim>\<open>TaskQueue.add_task\<close>: stores the task under its ID and returns the ID.\<close>

definition add_task :: "task \<Rightarrow> task_queue \<Rightarrow> string \<times> task_queue" where
  "add_task t q = (id_t t, dict_set (id_t t) t q)"

text \<open>
  The fallback of \<^verbatim>\<open>self.tasks.get(dep, Task("", []))\<close>: a fresh task, of which only
  the status is read.
\<close>

definition missing_dep :: task where
  "missing_dep = Task_init [] [] [] [] None 1 None None"

text \<open>The three tests of the loop in \<^verbatim>\<open>get_next_task\<close>; a task that passes none of the
  \<^verbatim>\<open>continue\<close> branches is appended to \<^verbatim>\<open>available_tasks\<close>.\<close>

definition unmet_dependencies :: "task_queue \<Rightarrow> task \<Rightarrow> bool" where
  "unmet_dependencies q t =
     list_ex (\<lambda>dep. status (case dict_get q dep of None \<Rightarrow> missing_dep | Some d \<Rightarrow> d)
                      \<noteq> ''completed'') (dependencies t)"

definition available :: "task_queue \<Rightarrow> string list \<Rightarrow> task \<Rightarrow> bool" where
  "available q agent_capabilities t =
     (if status t \<noteq> ''pending'' then False
      else if unmet_dependencies q t then False
      else if \<not> list_all (\<lambda>cap. cap \<in> set agent_capabilities) (required_capabilities t)
        then False
      else True)"

definition available_tasks :: "task_queue \<Rightarrow> string list \<Rightarrow> task list" where
  "available_tasks q agent_capabilities =
     filter (available q agent_capabilities) (dict_values q)"

text \<open>
  \<^verbatim>\<open>sorted(xs, key=f, reverse=True)\<close>. Python's sort is stable, and with
  \<^verbatim>\<open>reverse=True\<close> it reverses the list, sorts it in ascending order and reverses the
  result, so that elements with equal keys keep the order they had in \<open>xs\<close>.
\<close>

definition sorted_reverse :: "('a \<Rightarrow> int) \<Rightarrow> 'a list \<Rightarrow> 'a list" where
  "sorted_reverse f xs = rev (sort_key f (rev xs))"

text \<open>\<^verbatim>\<open>TaskQueue.get_next_task\<close>.\<close>

definition get_next_task :: "task_queue \<Rightarrow> string list \<Rightarrow> task option" where
  "get_next_task q agent_capabilities =
     (let avail = available_tasks q agent_capabilities in
      if avail = [] then None
      else (case sorted_reverse priority avail of [] \<Rightarrow> None | t # _ \<Rightarrow> Some t))"

section \<open>Task objects and their update (core/task.py)\<close>

text \<open>
  \<^verbatim>\<open>update_task\<close> reaches a task through \<^verbatim>\<open>hasattr\<close> and \<^verbatim>\<open>setattr\<close>, which work on the
  object and not on its annotated fields. A task object is its instance dictionary
  \<^verbatim>\<open>__dict__\<close>, where an attribute holds a value of any type. \<open>instance_dict\<close> is the
  object of a task of the record type: the eleven attributes in the order in which
  \<^verbatim>\<open>Task.__init__\<close> assigns them.
\<close>

type_synonym task_object = pydict

definition instance_dict :: "task \<Rightarrow> task_object" where
  "instance_dict t =
     [ (''id'', PStr (id_t t)),
       (''description'', PStr (description t)),
       (''requirements'', PList (map PStr (requirements t))),
       (''required_capabilities'', PList (map PStr (required_capabilities t))),
       (''priority'', PInt (priority t)),
       (''dependencies'', PList (map PStr (dependencies t))),
       (''context'', PDict (context_t t)),
       (''status'', PStr (status t)),
       (''created_at'', PStr (created_at t)),
       (''assigned_to'', opt_str_val (assigned_to t)),
       (''result'', result t) ]"

text \<open>
  A name that begins and ends with two underscores: the form of every name that the
  interpreter itself defines on a class or on \<^verbatim>\<open>object\<close>.
\<close>

definition dunder :: "string \<Rightarrow> bool" where
  "dunder key \<longleftrightarrow> take 2 key = ''__'' \<and> take 2 (rev key) = ''__''"

text \<open>
  The names that attribute lookup finds on the class of a task object rather than in
  its instance dictionary: the three methods of \<^verbatim>\<open>Task\<close>, what the interpreter gives
  every class and every object, and the further names of that form on the class or
  inherited from \<^verbatim>\<open>object\<close> (\<^verbatim>\<open>__eq__\<close>, \<^verbatim>\<open>__repr__\<close> and so on). The last depend on the
  version of the interpreter and are the parameter \<open>inherited\<close>; none of them is a data
  descriptor.
\<close>

definition class_attributes :: "string list \<Rightarrow> string list" where
  "class_attributes inherited =
     [''__init__'', ''to_dict'', ''from_dict'', ''__module__'', ''__doc__'', ''__dict__'',
      ''__weakref__'', ''__class__''] @ filter dunder inherited"

text \<open>\<^verbatim>\<open>hasattr(task, key)\<close>.\<close>

definition hasattr_task :: "string list \<Rightarrow> task_object \<Rightarrow> string \<Rightarrow> bool" where
  "hasattr_task inherited obj key \<longleftrightarrow>
     key \<in> fst ` set obj \<or> key \<in> set (class_attributes inherited)"

text \<open>
  \<^verbatim>\<open>setattr(task, key, value)\<close>. The three data descriptors of the class come first:
  \<^verbatim>\<open>__dict__\<close> takes a dictionary, which becomes the instance dictionary, and raises
  \<^verbatim>\<open>TypeError\<close> on any other value; \<^verbatim>\<open>__class__\<close> takes a class, which no value here is;
  \<^verbatim>\<open>__weakref__\<close> cannot be written. Every other name is written to the instance
  dictionary, whatever the value, and a method of that name is shadowed.
\<close>

definition setattr_task :: "task_object \<Rightarrow> string \<Rightarrow> pyval \<Rightarrow> exn + task_object" where
  "setattr_task obj key v =
     (if key = ''__dict__'' then (case v of PDict d \<Rightarrow> Inr d | _ \<Rightarrow> Inl TypeError)
      else if key = ''__class__'' then Inl TypeError
      else if key = ''__weakref__'' then Inl AttributeError
      else Inr (dict_set key v obj))"

text \<open>
  The loop of \<^verbatim>\<open>update_task\<close> over \<^verbatim>\<open>updates.items()\<close>. The object is written in place, so
  an exception leaves the writes made before it.
\<close>

fun apply_updates :: "string list \<Rightarrow> task_object \<Rightarrow> pydict \<Rightarrow> unit outcome \<times> task_object" where
  "apply_updates inherited obj [] = (Returned (), obj)"
| "apply_updates inherited obj ((key, v) # ups) =
     (if hasattr_task inherited obj key
      then (case setattr_task obj key v of
              Inl e \<Rightarrow> (Raised e, obj)
            | Inr obj' \<Rightarrow> apply_updates inherited obj' ups)
      else apply_updates inherited obj ups)"

text \<open>
  \<^verbatim>\<open>TaskQueue.update_task\<close> on a queue of task objects: what the call returns or raises,
  and the queue afterwards.
\<close>

type_synonym object_queue = "(string \<times> task_object) list"

definition update_task ::
    "string list \<Rightarrow> string \<Rightarrow> pydict \<Rightarrow> object_queue \<Rightarrow> bool outcome \<times> object_queue" where
  "update_task inherited task_id updates q =
     (case dict_get q task_id of
        None \<Rightarrow> (Returned False, q)
      | Some obj \<Rightarrow>
          (case apply_updates inherited obj updates of
             (Raised e, obj') \<Rightarrow> (Raised e, dict_set task_id obj' q)
           | (Returned _, obj') \<Rightarrow> (Returned True, dict_set task_id obj' q)))"

text \<open>The objects of a queue of tasks of the record type.\<close>

definition objects :: "task_queue \<Rightarrow> object_queue" where
  "objects q = map (\<lambda>p. (fst p, instance_dict (snd p))) q"

section \<open>The queue's contract, in the words of the specification\<close>

text \<open>
  The candidate test of the specification: the task is pending, its required
  capabilities are among the agent's, and every dependency ID resolves to a task of
  the queue whose status is completed (an ID missing from the queue is unmet).
\<close>

definition eligible :: "task_queue \<Rightarrow> string list \<Rightarrow> task \<Rightarrow> bool" where
  "eligible q caps t \<longleftrightarrow>
     status t = ''pending'' \<and>
     set (required_capabilities t) \<subseteq> set caps \<and>
     (\<forall>dep \<in> set (dependencies t).
        case dict_get q dep of None \<Rightarrow> False | Some d \<Rightarrow> status d = ''completed'')"

text \<open>Tasks and queues for the concrete runs below.\<close>

definition demo_task :: "string \<Rightarrow> string \<Rightarrow> int \<Rightarrow> task" where
  "demo_task i now prio = Task_init i now ''work'' [] None prio None None"

text \<open>Task \<open>a\<close>, created on 2 January, is added before task \<open>b\<close>, created on 1 January.\<close>

definition late_first_queue :: task_queue where
  "late_first_queue =
     snd (add_task (demo_task ''b'' ''2024-01-01T00:00:00'' 1)
       (snd (add_task (demo_task ''a'' ''2024-01-02T00:00:00'' 1) [])))"

text \<open>A queue whose only task depends on an ID that is not in the queue.\<close>

definition blocked_queue :: task_queue where
  "blocked_queue =
     snd (add_task (Task_init ''c'' ''2024-01-01T00:00:00'' ''work'' [] None 1 (Some [''zz'']) None) [])"

text \<open>
  The methods that every object inherits from \<^verbatim>\<open>object\<close> in CPython 3.12, for the concrete
  runs; the theorems below hold for any such list.
\<close>

definition object_methods :: "string list" where
  "object_methods =
     [''__delattr__'', ''__dir__'', ''__eq__'', ''__format__'', ''__ge__'', ''__getattribute__'',
      ''__getstate__'', ''__gt__'', ''__hash__'', ''__init_subclass__'', ''__le__'', ''__lt__'',
      ''__ne__'', ''__new__'', ''__reduce__'', ''__reduce_ex__'', ''__repr__'', ''__setattr__'',
      ''__sizeof__'', ''__str__'', ''__subclasshook__'']"

text \<open>
  Updates naming a mutable field, a field the specification calls fixed (with a value
  that is not of its annotated type), and no attribute at all.
\<close>

definition demo_updates :: pydict where
  "demo_updates = [(''status'', PStr ''completed''), (''priority'', PStr ''high''), (''colour'', PInt 3)]"

section \<open>The memory client, the clock and the log\<close>

text \<open>
  A key of the memory client is built by an f-string from a fixed prefix and one
  interpolated value, as in \<^verbatim>\<open>f"task:{task['id']}"\<close>; it is kept as the pair of the two.
\<close>

type_synonym memory_key = "string \<times> pyval"

text \<open>
  The memory client is a parameter of the program (\<^verbatim>\<open>memory_client: Any\<close>). It is taken
  as any deterministic machine over a state \<open>'w\<close> of its own: each method either raises
  or returns, and leaves a new state. The orchestrator and its agents hold the same
  client, as \<^verbatim>\<open>main.py\<close> sets them up. The clock \<^verbatim>\<open>datetime.now().isoformat()\<close> reads the
  same outside world. Dictionaries are values: the client does not alter a dictionary
  it has been handed. \<open>inherited_names\<close> is the interpreter's part of \<open>class_attributes\<close>.
\<close>

record 'w environment =
  store_short_term :: "memory_key \<Rightarrow> pyval \<Rightarrow> 'w \<Rightarrow> unit outcome \<times> 'w"
  store_long_term :: "memory_key \<Rightarrow> pyval \<Rightarrow> 'w \<Rightarrow> unit outcome \<times> 'w"
  update_world_state :: "memory_key \<Rightarrow> pyval \<Rightarrow> 'w \<Rightarrow> unit outcome \<times> 'w"
  get_long_term :: "memory_key \<Rightarrow> 'w \<Rightarrow> pyval outcome \<times> 'w"
  get_world_state :: "memory_key \<Rightarrow> 'w \<Rightarrow> pyval outcome \<times> 'w"
  datetime_now :: "'w \<Rightarrow> string \<times> 'w"
  inherited_names :: "string list"

text \<open>
  A record of the logger: the level, the text of the message with \<open>{}\<close> for each
  interpolated value, and those values (the text of an exception is left out).
\<close>

datatype level = Info | Warning | Error

type_synonym log_entry = "level \<times> string \<times> pyval list"

section \<open>Agents (core/agent.py)\<close>

record agent =
  name :: string
  id_a :: string
  capabilities :: "string list"
  current_task :: "pydict option"
  status_a :: string
  logger_a :: "log_entry list"

text \<open>
  \<^verbatim>\<open>Agent.__init__\<close>. The identifier, derived from the name and a random UUID, is the
  parameter \<open>ident\<close>.
\<close>

definition Agent_init :: "string \<Rightarrow> string \<Rightarrow> string list \<Rightarrow> agent" where
  "Agent_init nm ident caps =
     \<lparr>name = nm, id_a = ident, capabilities = caps, current_task = None,
      status_a = ''idle'', logger_a = []\<rparr>"

definition log_a :: "level \<Rightarrow> string \<Rightarrow> pyval list \<Rightarrow> agent \<Rightarrow> agent" where
  "log_a l msg args a = a\<lparr>logger_a := logger_a a @ [(l, msg, args)]\<rparr>"

text \<open>
  Iteration over a value, as \<^verbatim>\<open>for cap in required_capabilities\<close> does: the elements of
  a list, the characters of a string, the keys of a dictionary; \<^verbatim>\<open>TypeError\<close> otherwise.
\<close>

fun iterate :: "pyval \<Rightarrow> exn + pyval list" where
  "iterate (PList xs) = Inr xs"
| "iterate (PStr s) = Inr (map (\<lambda>c. PStr [c]) s)"
| "iterate (PDict d) = Inr (map (\<lambda>p. PStr (fst p)) d)"
| "iterate (PInt n) = Inl TypeError"
| "iterate PNone = Inl TypeError"

text \<open>\<^verbatim>\<open>cap in self.capabilities\<close>, for a list of strings.\<close>

fun cap_in :: "string list \<Rightarrow> pyval \<Rightarrow> bool" where
  "cap_in caps (PStr s) = (s \<in> set caps)"
| "cap_in caps v = False"

text \<open>
  The test \<^verbatim>\<open>required_capabilities and not all(cap in self.capabilities for cap in
  required_capabilities)\<close> of \<^verbatim>\<open>assign_task\<close>.
\<close>

definition lacks_capabilities :: "agent \<Rightarrow> pydict \<Rightarrow> exn + bool" where
  "lacks_capabilities a task =
     (let required = get_or task ''required_capabilities'' (PList []) in
      if truthy required
      then bnd (iterate required) (\<lambda>cs. Inr (\<not> list_all (cap_in (capabilities a)) cs))
      else Inr False)"

text \<open>The assignment record that \<^verbatim>\<open>assign_task\<close> publishes to the world state.\<close>

definition assignment_record :: "string \<Rightarrow> string \<Rightarrow> pyval" where
  "assignment_record agent_id now =
     PDict [(''agent'', PStr agent_id), (''assigned_at'', PStr now), (''status'', PStr ''assigned'')]"

text \<open>The body of the \<^verbatim>\<open>try\<close> block of \<^verbatim>\<open>assign_task\<close>.\<close>

definition assign_task_body ::
    "'w environment \<Rightarrow> pydict \<Rightarrow> agent \<Rightarrow> 'w \<Rightarrow> bool outcome \<times> agent \<times> 'w" where
  "assign_task_body env task a w =
     (case subscript task ''id'' of
        Inl e \<Rightarrow> (Raised e, a, w)
      | Inr i \<Rightarrow>
          (case store_short_term env (''task:'', i) (PDict task) w of
             (Raised e, w1) \<Rightarrow> (Raised e, a, w1)
           | (Returned _, w1) \<Rightarrow>
               (let a1 = a\<lparr>current_task := Some task, status_a := ''working''\<rparr>;
                    a2 = log_a Info ''Assigned task {} to agent {}'' [i, PStr (name a1)] a1
                in case datetime_now env w1 of
                     (now, w2) \<Rightarrow>
                       (case update_world_state env (''task_assignment:'', i)
                               (assignment_record (id_a a2) now) w2 of
                          (Raised e, w3) \<Rightarrow> (Raised e, a2, w3)
                        | (Returned _, w3) \<Rightarrow> (Returned True, a2, w3)))))"

text \<open>
  \<^verbatim>\<open>Agent.assign_task\<close>: what the call returns or raises, the agent afterwards and the
  outside world afterwards. The two early returns evaluate \<^verbatim>\<open>task['id']\<close> for their log
  message outside the \<^verbatim>\<open>try\<close> block, and the handler evaluates it again.
\<close>

definition assign_task ::
    "'w environment \<Rightarrow> pydict \<Rightarrow> agent \<Rightarrow> 'w \<Rightarrow> bool outcome \<times> agent \<times> 'w" where
  "assign_task env task a w =
     (if status_a a \<noteq> ''idle'' then
        (case subscript task ''id'' of
           Inl e \<Rightarrow> (Raised e, a, w)
         | Inr i \<Rightarrow>
             (Returned False,
              log_a Warning ''Cannot assign task {}: Agent is {}'' [i, PStr (status_a a)] a, w))
      else
        (case lacks_capabilities a task of
           Inl e \<Rightarrow> (Raised e, a, w)
         | Inr lacks \<Rightarrow>
             if lacks then
               (case subscript task ''id'' of
                  Inl e \<Rightarrow> (Raised e, a, w)
                | Inr i \<Rightarrow>
                    (Returned False,
                     log_a Warning ''Cannot assign task {}: Missing required capabilities'' [i] a,
                     w))
             else
               (case assign_task_body env task a w of
                  (Returned b, a', w') \<Rightarrow> (Returned b, a', w')
                | (Raised e, a', w') \<Rightarrow>
                    if is_Exception e then
                      (case subscript task ''id'' of
                         Inl e' \<Rightarrow> (Raised e', a', w')
                       | Inr i \<Rightarrow>
                           (Returned False,
                            log_a Error ''Failed to assign task {}: {}'' [i] a', w'))
                    else (Raised e, a', w'))))"

text \<open>\<^verbatim>\<open>not self.current_task\<close>: \<^verbatim>\<open>None\<close> and the empty dictionary are both false.\<close>

definition no_current_task :: "agent \<Rightarrow> bool" where
  "no_current_task a = (case current_task a of None \<Rightarrow> True | Some ct \<Rightarrow> ct = [])"

text \<open>The handler of \<^verbatim>\<open>report_progress\<close>.\<close>

definition report_failed ::
    "exn \<Rightarrow> pydict \<Rightarrow> agent \<Rightarrow> 'w \<Rightarrow> unit outcome \<times> pydict \<times> agent \<times> 'w" where
  "report_failed e progress a w =
     (if is_Exception e
      then (Returned (), progress, log_a Error ''Failed to report progress: {}'' [] a, w)
      else (Raised e, progress, a, w))"

text \<open>The progress record with the two stamps of \<^verbatim>\<open>report_progress\<close> written to it.\<close>

definition stamped :: "pydict \<Rightarrow> string \<Rightarrow> string \<Rightarrow> pydict" where
  "stamped progress now agent_id =
     dict_set ''agent'' (PStr agent_id) (dict_set ''reported_at'' (PStr now) progress)"

text \<open>
  \<^verbatim>\<open>Agent.report_progress\<close>. The dictionary \<open>progress\<close> of the caller is written to, so it
  is returned as well.
\<close>

definition report_progress ::
    "'w environment \<Rightarrow> pydict \<Rightarrow> agent \<Rightarrow> 'w \<Rightarrow> unit outcome \<times> pydict \<times> agent \<times> 'w" where
  "report_progress env progress a w =
     (if no_current_task a then
        (Returned (), progress,
         log_a Warning ''Cannot report progress: No task assigned'' [] a, w)
      else
        (case datetime_now env w of
           (now, w1) \<Rightarrow>
             (let p2 = stamped progress now (id_a a)
              in case subscript (the (current_task a)) ''id'' of
                   Inl e \<Rightarrow> report_failed e p2 a w1
                 | Inr i \<Rightarrow>
                     (case update_world_state env (''task_progress:'', i) (PDict p2) w1 of
                        (Raised e, w2) \<Rightarrow> report_failed e p2 a w2
                      | (Returned _, w2) \<Rightarrow>
                          (case subscript p2 ''status'' of
                             Inl e \<Rightarrow> report_failed e p2 a w2
                           | Inr s \<Rightarrow>
                               (let a1 = log_a Info ''Reported progress for task {}: {}'' [i, s] a
                                in if s = PStr ''completed'' \<or> s = PStr ''failed''
                                   then (Returned (), p2,
                                         a1\<lparr>status_a := ''idle'', current_task := None\<rparr>, w2)
                                   else (Returned (), p2, a1, w2)))))))"

text \<open>Sequences of calls on one agent; a call that raises leaves the state it reached.\<close>

datatype agent_call = Assign_task pydict | Report_progress pydict

fun call_agent :: "'w environment \<Rightarrow> agent_call \<Rightarrow> agent \<times> 'w \<Rightarrow> agent \<times> 'w" where
  "call_agent env (Assign_task task) (a, w) = snd (assign_task env task a w)"
| "call_agent env (Report_progress progress) (a, w) = snd (snd (report_progress env progress a w))"

definition call_agent_seq ::
    "'w environment \<Rightarrow> agent_call list \<Rightarrow> agent \<times> 'w \<Rightarrow> agent \<times> 'w" where
  "call_agent_seq env calls s = foldl (\<lambda>s c. call_agent env c s) s calls"

text \<open>The exclusivity invariant of the specification, in its words.\<close>

definition exclusive :: "agent \<Rightarrow> bool" where
  "exclusive a \<longleftrightarrow>
     (status_a a = ''working'' \<longleftrightarrow> current_task a \<noteq> None) \<and>
     (status_a a = ''idle'' \<longleftrightarrow> current_task a = None)"

section \<open>The mock memory client (main.py)\<close>

record mock_client =
  short_term :: "(memory_key \<times> pyval) list"
  long_term :: "(memory_key \<times> pyval) list"
  world_state :: "(memory_key \<times> pyval) list"

definition MockMTMAClient_init :: mock_client where
  "MockMTMAClient_init = \<lparr>short_term = [], long_term = [], world_state = []\<rparr>"

text \<open>
  \<^verbatim>\<open>MockMTMAClient\<close>: the three partitions are dictionaries, a store writes the key, a
  read is \<^verbatim>\<open>.get(key)\<close>, and nothing raises. The clock stands at \<open>now\<close>.
\<close>

definition mock_get :: "(memory_key \<times> pyval) list \<Rightarrow> memory_key \<Rightarrow> pyval" where
  "mock_get d key = (case dict_get d key of None \<Rightarrow> PNone | Some v \<Rightarrow> v)"

definition mock_env :: "string \<Rightarrow> mock_client environment" where
  "mock_env now =
     \<lparr>store_short_term = (\<lambda>key v m. (Returned (), m\<lparr>short_term := dict_set key v (short_term m)\<rparr>)),
      store_long_term = (\<lambda>key v m. (Returned (), m\<lparr>long_term := dict_set key v (long_term m)\<rparr>)),
      update_world_state =
        (\<lambda>key v m. (Returned (), m\<lparr>world_state := dict_set key v (world_state m)\<rparr>)),
      get_long_term = (\<lambda>key m. (Returned (mock_get (long_term m) key), m)),
      get_world_state = (\<lambda>key m. (Returned (mock_get (world_state m) key), m)),
      datetime_now = (\<lambda>m. (now, m)),
      inherited_names = object_methods\<rparr>"

text \<open>The same client with a world-state partition that cannot be written.\<close>

definition unwritable_world_env :: "string \<Rightarrow> mock_client environment" where
  "unwritable_world_env now =
     (mock_env now)\<lparr>update_world_state := (\<lambda>key v m. (Raised (Collaborator ''unavailable''), m))\<rparr>"

section \<open>Updates on a queue of typed tasks\<close>

text \<open>
  The task of the record type whose object \<open>obj\<close> is: the eleven attributes are read at
  their annotated types, and the object must be the object of the task so read.
  \<open>Ill_typed\<close> marks every other object.
\<close>

definition Task_of_object :: "task_object \<Rightarrow> exn + task" where
  "Task_of_object obj =
     bnd (bnd (subscript obj ''id'') (as_str ''id'')) (\<lambda>i.
     bnd (bnd (subscript obj ''description'') (as_str ''description'')) (\<lambda>descr.
     bnd (bnd (subscript obj ''requirements'') (as_str_list ''requirements'')) (\<lambda>reqs.
     bnd (bnd (subscript obj ''required_capabilities'')
            (as_str_list ''required_capabilities'')) (\<lambda>req_caps.
     bnd (bnd (subscript obj ''priority'') (as_int ''priority'')) (\<lambda>prio.
     bnd (bnd (subscript obj ''dependencies'') (as_str_list ''dependencies'')) (\<lambda>deps.
     bnd (bnd (subscript obj ''context'') (as_dict ''context'')) (\<lambda>ctx.
     bnd (bnd (subscript obj ''status'') (as_str ''status'')) (\<lambda>st.
     bnd (bnd (subscript obj ''created_at'') (as_str ''created_at'')) (\<lambda>cr.
     bnd (bnd (subscript obj ''assigned_to'') (as_opt_str ''assigned_to'')) (\<lambda>asg.
     bnd (subscript obj ''result'') (\<lambda>res.
     let t = \<lparr> id_t = i, description = descr, requirements = reqs,
                required_capabilities = req_caps, priority = prio, dependencies = deps,
                context_t = ctx, status = st, created_at = cr, assigned_to = asg,
                result = res \<rparr>
     in if instance_dict t = obj then Inr t else Inl (Ill_typed ''__dict__''))))))))))))"

text \<open>
  \<open>update_task\<close> on a queue of tasks of the record type, as the orchestrator holds it:
  the loop of \<open>update_task\<close> runs on the object of the task, and the object it leaves is
  read back as a task.
\<close>

definition update_task_typed ::
    "string list \<Rightarrow> string \<Rightarrow> pydict \<Rightarrow> task_queue \<Rightarrow> exn + (bool \<times> task_queue)" where
  "update_task_typed inherited task_id updates q =
     (case dict_get q task_id of
        None \<Rightarrow> Inr (False, q)
      | Some t \<Rightarrow>
          (case apply_updates inherited (instance_dict t) updates of
             (Raised e, obj') \<Rightarrow> Inl e
           | (Returned _, obj') \<Rightarrow>
               bnd (Task_of_object obj') (\<lambda>t'. Inr (True, dict_set task_id t' q))))"

section \<open>The orchestrator (core/orchestrator.py)\<close>

record orchestrator =
  agents :: "(string \<times> agent) list"
  task_queue :: task_queue
  logger_o :: "log_entry list"

definition log_o :: "level \<Rightarrow> string \<Rightarrow> pyval list \<Rightarrow> orchestrator \<Rightarrow> orchestrator" where
  "log_o l msg args orch = orch\<lparr>logger_o := logger_o orch @ [(l, msg, args)]\<rparr>"

text \<open>
  \<^verbatim>\<open>get_next_task\<close> returns an object held by the queue, which \<^verbatim>\<open>assign_tasks\<close> then writes
  to. \<open>get_next_entry\<close> is the same selection on the entries of the queue, so that the
  key under which the returned object is held is known.
\<close>

definition get_next_entry :: "task_queue \<Rightarrow> string list \<Rightarrow> (string \<times> task) option" where
  "get_next_entry q caps =
     (case sorted_reverse (\<lambda>p. priority (snd p)) (filter (\<lambda>p. available q caps (snd p)) q) of
        [] \<Rightarrow> None
      | p # _ \<Rightarrow> Some p)"

text \<open>
  The body of the loop of \<^verbatim>\<open>assign_tasks\<close> for one agent: the number of tasks assigned
  (0 or 1), the agent and the queue afterwards. A \<^verbatim>\<open>Task\<close> object is always true, so
  \<^verbatim>\<open>if not task\<close> tests for \<^verbatim>\<open>None\<close>.
\<close>

definition assign_tasks_agent ::
    "'w environment \<Rightarrow> agent \<Rightarrow> task_queue \<Rightarrow> 'w \<Rightarrow> nat outcome \<times> agent \<times> task_queue \<times> 'w" where
  "assign_tasks_agent env a q w =
     (if status_a a \<noteq> ''idle'' then (Returned 0, a, q, w)
      else
        (case get_next_entry q (capabilities a) of
           None \<Rightarrow> (Returned 0, a, q, w)
         | Some (k, task) \<Rightarrow>
             (case assign_task env (to_dict task) a w of
                (Raised e, a', w') \<Rightarrow> (Raised e, a', q, w')
              | (Returned success, a', w') \<Rightarrow>
                  if success then
                    (let task' = task\<lparr>status := ''assigned'', assigned_to := Some (id_a a')\<rparr>;
                         q1 = dict_set k task' q
                     in case update_task_typed (inherited_names env) (id_t task')
                               [(''status'', PStr ''assigned''),
                                (''assigned_to'', PStr (id_a a'))] q1 of
                          Inl e \<Rightarrow> (Raised e, a', q1, w')
                        | Inr (_, q2) \<Rightarrow> (Returned 1, a', q2, w'))
                  else (Returned 0, a', q, w'))))"

text \<open>The loop over \<^verbatim>\<open>self.agents.values()\<close>; an exception ends it where it is.\<close>

fun assign_tasks_loop ::
    "'w environment \<Rightarrow> (string \<times> agent) list \<Rightarrow> nat \<Rightarrow> task_queue \<Rightarrow> 'w \<Rightarrow>
     nat outcome \<times> (string \<times> agent) list \<times> task_queue \<times> 'w" where
  "assign_tasks_loop env [] n q w = (Returned n, [], q, w)"
| "assign_tasks_loop env ((k, a) # rest) n q w =
     (case assign_tasks_agent env a q w of
        (Raised e, a', q', w') \<Rightarrow> (Raised e, (k, a') # rest, q', w')
      | (Returned m, a', q', w') \<Rightarrow>
          (case assign_tasks_loop env rest (n + m) q' w' of
             (out, rest', q'', w'') \<Rightarrow> (out, (k, a') # rest', q'', w'')))"

text \<open>\<^verbatim>\<open>TaskOrchestrator.assign_tasks\<close>.\<close>

definition assign_tasks ::
    "'w environment \<Rightarrow> orchestrator \<Rightarrow> 'w \<Rightarrow> nat outcome \<times> orchestrator \<times> 'w" where
  "assign_tasks env orch w =
     (case assign_tasks_loop env (agents orch) 0 (task_queue orch) w of
        (out, ags, q, w') \<Rightarrow> (out, orch\<lparr>agents := ags, task_queue := q\<rparr>, w'))"

text \<open>
  \<^verbatim>\<open>update_task\<close> called with a task ID of any value, as the handlers receive it from
  \<^verbatim>\<open>current_task["id"]\<close>: the test \<^verbatim>\<open>task_id not in self.tasks\<close> raises \<^verbatim>\<open>TypeError\<close> on an
  unhashable value, and a value that is not a string is no key of the queue.
\<close>

definition update_task_at ::
    "string list \<Rightarrow> pyval \<Rightarrow> pydict \<Rightarrow> task_queue \<Rightarrow> exn + (bool \<times> task_queue)" where
  "update_task_at inherited task_id updates q =
     (case task_id of
        PStr s \<Rightarrow> update_task_typed inherited s updates q
      | PList _ \<Rightarrow> Inl TypeError
      | PDict _ \<Rightarrow> Inl TypeError
      | _ \<Rightarrow> Inr (False, q))"

text \<open>
  The second half of both handlers: the durable snapshot is read, and if it is true it
  is written to and stored back. \<open>stamp\<close> is \<^verbatim>\<open>completed_at\<close> or \<^verbatim>\<open>failed_at\<close>. Item
  assignment with a string key raises \<^verbatim>\<open>TypeError\<close> on a snapshot that is not a
  dictionary.
\<close>

definition mirror_long_term ::
    "'w environment \<Rightarrow> pyval \<Rightarrow> string \<Rightarrow> string \<Rightarrow> pydict \<Rightarrow> 'w \<Rightarrow> unit outcome \<times> 'w" where
  "mirror_long_term env task_id st stamp res w =
     (case get_long_term env (''task:'', task_id) w of
        (Raised e, w1) \<Rightarrow> (Raised e, w1)
      | (Returned task_data, w1) \<Rightarrow>
          if truthy task_data then
            (case task_data of
               PDict d \<Rightarrow>
                 (case datetime_now env w1 of
                    (now, w2) \<Rightarrow>
                      store_long_term env (''task:'', task_id)
                        (PDict (dict_set stamp (PStr now)
                           (dict_set ''result'' (PDict res)
                             (dict_set ''status'' (PStr st) d)))) w2)
             | _ \<Rightarrow> (Raised TypeError, w1))
          else (Returned (), w1))"

text \<open>\<^verbatim>\<open>TaskOrchestrator.handle_completed_task\<close>.\<close>

definition handle_completed_task ::
    "'w environment \<Rightarrow> pyval \<Rightarrow> pydict \<Rightarrow> orchestrator \<Rightarrow> 'w \<Rightarrow>
     unit outcome \<times> orchestrator \<times> 'w" where
  "handle_completed_task env task_id res orch w =
     (case update_task_at (inherited_names env) task_id
             [(''status'', PStr ''completed''), (''result'', PDict res)] (task_queue orch) of
        Inl e \<Rightarrow> (Raised e, orch, w)
      | Inr (_, q1) \<Rightarrow>
          (let orch1 = orch\<lparr>task_queue := q1\<rparr> in
           case mirror_long_term env task_id ''completed'' ''completed_at'' res w of
             (Raised e, w1) \<Rightarrow> (Raised e, orch1, w1)
           | (Returned _, w1) \<Rightarrow>
               (Returned (), log_o Info ''Task {} completed successfully'' [task_id] orch1, w1)))"

text \<open>\<^verbatim>\<open>TaskOrchestrator.handle_failed_task\<close>.\<close>

definition handle_failed_task ::
    "'w environment \<Rightarrow> pyval \<Rightarrow> pydict \<Rightarrow> orchestrator \<Rightarrow> 'w \<Rightarrow>
     unit outcome \<times> orchestrator \<times> 'w" where
  "handle_failed_task env task_id error_data orch w =
     (case update_task_at (inherited_names env) task_id
             [(''status'', PStr ''failed''), (''result'', PDict error_data)] (task_queue orch) of
        Inl e \<Rightarrow> (Raised e, orch, w)
      | Inr (_, q1) \<Rightarrow>
          (let orch1 = orch\<lparr>task_queue := q1\<rparr> in
           case mirror_long_term env task_id ''failed'' ''failed_at'' error_data w of
             (Raised e, w1) \<Rightarrow> (Raised e, orch1, w1)
           | (Returned _, w1) \<Rightarrow>
               (Returned (),
                log_o Error ''Task {} failed: {}''
                  [task_id, get_or error_data ''message'' (PStr ''Unknown error'')] orch1, w1)))"

text \<open>
  The body of the loop of \<^verbatim>\<open>monitor_progress\<close> for one agent. \<^verbatim>\<open>task_progress.get\<close> raises
  \<^verbatim>\<open>AttributeError\<close> on a true record that is not a dictionary.
\<close>

definition monitor_agent ::
    "'w environment \<Rightarrow> agent \<Rightarrow> orchestrator \<Rightarrow> 'w \<Rightarrow> unit outcome \<times> orchestrator \<times> 'w" where
  "monitor_agent env a orch w =
     (if status_a a \<noteq> ''working'' \<or> no_current_task a then (Returned (), orch, w)
      else
        (case subscript (the (current_task a)) ''id'' of
           Inl e \<Rightarrow> (Raised e, orch, w)
         | Inr task_id \<Rightarrow>
             (case get_world_state env (''task_progress:'', task_id) w of
                (Raised e, w1) \<Rightarrow> (Raised e, orch, w1)
              | (Returned task_progress, w1) \<Rightarrow>
                  if \<not> truthy task_progress then (Returned (), orch, w1)
                  else
                    (case task_progress of
                       PDict d \<Rightarrow>
                         if dict_get d ''status'' = Some (PStr ''completed'')
                         then handle_completed_task env task_id d orch w1
                         else if dict_get d ''status'' = Some (PStr ''failed'')
                         then handle_failed_task env task_id d orch w1
                         else (Returned (), orch, w1)
                     | _ \<Rightarrow> (Raised AttributeError, orch, w1)))))"

text \<open>The loop over \<^verbatim>\<open>self.agents.items()\<close>; the loop does not write to the agents.\<close>

fun monitor_loop ::
    "'w environment \<Rightarrow> (string \<times> agent) list \<Rightarrow> orchestrator \<Rightarrow> 'w \<Rightarrow>
     unit outcome \<times> orchestrator \<times> 'w" where
  "monitor_loop env [] orch w = (Returned (), orch, w)"
| "monitor_loop env ((k, a) # rest) orch w =
     (case monitor_agent env a orch w of
        (Raised e, orch', w') \<Rightarrow> (Raised e, orch', w')
      | (Returned _, orch', w') \<Rightarrow> monitor_loop env rest orch' w')"

text \<open>\<^verbatim>\<open>TaskOrchestrator.monitor_progress\<close>.\<close>

definition monitor_progress ::
    "'w environment \<Rightarrow> orchestrator \<Rightarrow> 'w \<Rightarrow> unit outcome \<times> orchestrator \<times> 'w" where
  "monitor_progress env orch w = monitor_loop env (agents orch) orch w"

section \<open>The life cycle of a task, in the words of the specification\<close>

text \<open>A task is in a terminal state when its status is completed or failed.\<close>

definition terminal :: "task \<Rightarrow> bool" where
  "terminal t \<longleftrightarrow> status t = ''completed'' \<or> status t = ''failed''"

text \<open>
  A queue as \<^verbatim>\<open>add_task\<close> builds it: a dictionary (its keys are distinct) in which every
  task is stored under its own ID.
\<close>

definition keyed_by_id :: "task_queue \<Rightarrow> bool" where
  "keyed_by_id q \<longleftrightarrow> distinct (map fst q) \<and> list_all (\<lambda>p. id_t (snd p) = fst p) q"

text \<open>
  What \<^verbatim>\<open>handle_completed_task\<close> and \<^verbatim>\<open>handle_failed_task\<close> leave in the queue: the task
  stored under the ID, if there is one, has the status \<open>st\<close> and the record as its
  result.
\<close>

definition settled :: "string \<Rightarrow> pydict \<Rightarrow> pyval \<Rightarrow> task_queue \<Rightarrow> task_queue" where
  "settled st res task_id q =
     (case task_id of
        PStr s \<Rightarrow>
          (case dict_get q s of
             None \<Rightarrow> q
           | Some t \<Rightarrow> dict_set s (t\<lparr>status := st, result := PDict res\<rparr>) q)
      | _ \<Rightarrow> q)"

text \<open>
  Every task that is terminal in \<open>q\<close> is terminal in \<open>q'\<close> and has changed in its status
  and result at most.
\<close>

definition stays_terminal :: "task_queue \<Rightarrow> task_queue \<Rightarrow> bool" where
  "stays_terminal q q' \<longleftrightarrow>
     (\<forall>k t. dict_get q k = Some t \<and> terminal t \<longrightarrow>
        (\<exists>t'. dict_get q' k = Some t' \<and> terminal t' \<and>
              t'\<lparr>status := status t, result := result t\<rparr> = t))"

text \<open>Every task that is terminal in \<open>q\<close> is the same in \<open>q'\<close>.\<close>

definition keeps_terminal :: "task_queue \<Rightarrow> task_queue \<Rightarrow> bool" where
  "keeps_terminal q q' \<longleftrightarrow> (\<forall>k t. dict_get q k = Some t \<and> terminal t \<longrightarrow> dict_get q' k = Some t)"

section \<open>A small system for the concrete runs\<close>

definition demo_agent :: agent where
  "demo_agent = Agent_init ''Coder'' ''coder_1a2b3c4d'' [''python'']"

text \<open>The agent and the mock client after the agent has accepted task \<open>a\<close>.\<close>

definition demo_assigned :: "agent \<times> mock_client" where
  "demo_assigned =
     snd (assign_task (mock_env ''2024-01-05T00:00:00'')
            (to_dict (demo_task ''a'' ''2024-01-02T00:00:00'' 1)) demo_agent MockMTMAClient_init)"

definition demo_progress :: "string \<Rightarrow> pydict" where
  "demo_progress st = [(''status'', PStr st), (''output'', PStr ''done'')]"

text \<open>
  An orchestrator with that agent and the two tasks \<open>a\<close> and \<open>b\<close>; the orchestrator and
  the mock client after \<open>assign_tasks\<close>; the mock client after a progress record for
  task \<open>a\<close> has then been written to the world state.
\<close>

definition demo_start :: orchestrator where
  "demo_start =
     \<lparr>agents = [(''coder_1a2b3c4d'', demo_agent)], task_queue = late_first_queue, logger_o = []\<rparr>"

definition demo_running :: "orchestrator \<times> mock_client" where
  "demo_running = snd (assign_tasks (mock_env ''2024-01-05T00:00:00'') demo_start MockMTMAClient_init)"

definition demo_reported :: "string \<Rightarrow> mock_client \<Rightarrow> mock_client" where
  "demo_reported st m =
     snd (update_world_state (mock_env ''2024-01-06T00:00:00'')
            (''task_progress:'', PStr ''a'') (PDict (demo_progress st)) m)"

text \<open>The orchestrator and the mock client after task \<open>a\<close> was reported completed and
  \<open>monitor_progress\<close> has run.\<close>

definition demo_monitored :: "orchestrator \<times> mock_client" where
  "demo_monitored =
     snd (monitor_progress (mock_env ''2024-01-07T00:00:00'') (fst demo_running)
            (demo_reported ''completed'' (snd demo_running)))"

section \<open>Serialisation round trip\<close>

lemma as_strs_map: "as_strs k (map PStr xs) = Inr xs"
  by (induction xs) (simp_all add: bnd_def)

lemma or_empty_Some: "or_empty (Some xs) = xs"
  by (simp add: or_empty_def)

text \<open>
  Claim C9. Converting a task with \<open>to_dict\<close> and rebuilding it with \<open>from_dict\<close>
  never raises and yields a task with the same eleven attributes, that is, the same
  task, whatever identifier and clock reading the constructor call inside
  \<open>from_dict\<close> draws.
\<close>

theorem from_dict_to_dict: "from_dict uuid4 now (to_dict t) = Inr t"
  by (cases t; cases "assigned_to t")
     (simp_all add: from_dict_def to_dict_def bnd_def subscript_def dict_get_def get_or_def
       Task_init_def as_strs_map or_empty_Some opt_str_val_def)

section \<open>Facts about dictionaries and attribute access\<close>

lemma dict_get_dict_set: "dict_get (dict_set k v d) = (dict_get d)(k \<mapsto> v)"
  by (induction d) (auto simp: dict_get_def)

lemma keys_dict_set: "k \<in> fst ` set d \<Longrightarrow> map fst (dict_set k v d) = map fst d"
  by (induction d) auto

lemma dict_get_keys: "dict_get d k \<noteq> None \<longleftrightarrow> k \<in> fst ` set d"
  by (simp add: dict_get_def map_of_eq_None_iff)

lemma bnd_Inr: "bnd m f = Inr y \<longleftrightarrow> (\<exists>x. m = Inr x \<and> f x = Inr y)"
  by (cases m) (simp_all add: bnd_def)

lemma as_strs_inv: "as_strs k vs = Inr ss \<Longrightarrow> map PStr ss = vs"
proof (induction k vs arbitrary: ss rule: as_strs.induct)
  case (2 k s vs)
  then show ?case by (auto simp: bnd_def split: sum.splits)
qed simp_all

lemma as_str_list_inv: "as_str_list k v = Inr x \<Longrightarrow> v = PList (map PStr x)"
  by (cases v) (auto dest: as_strs_inv)

lemma as_str_inv: "as_str k v = Inr x \<Longrightarrow> v = PStr x"
  by (cases v) auto

lemma as_int_inv: "as_int k v = Inr x \<Longrightarrow> v = PInt x"
  by (cases v) auto

lemma as_dict_inv: "as_dict k v = Inr x \<Longrightarrow> v = PDict x"
  by (cases v) auto

lemma as_opt_str_inv: "as_opt_str k v = Inr x \<Longrightarrow> v = opt_str_val x"
  by (cases v) (auto simp: opt_str_val_def)

lemma dict_get_Cons:
  "dict_get ((k, v) # d) k' = (if k' = k then Some v else dict_get d k')"
  by (simp add: dict_get_def)

lemma dict_get_absent: "k \<notin> fst ` set d \<Longrightarrow> dict_get d k = None"
  by (simp add: dict_get_def map_of_eq_None_iff)

lemma set_keys_dict_set: "k \<in> fst ` set d \<Longrightarrow> fst ` set (dict_set k v d) = fst ` set d"
  using keys_dict_set [of k d v] by (metis list.set_map)

text \<open>
  The loop of \<open>update_task\<close> when no key of the updates names something of the class:
  it returns, the object keeps its attribute names, and an attribute holds the value
  the updates give it, or else the value it held.
\<close>

lemma dunder_fixed:
  "dunder ''__init__''" "dunder ''__module__''" "dunder ''__doc__''" "dunder ''__dict__''"
  "dunder ''__weakref__''" "dunder ''__class__''"
  by (simp_all add: dunder_def)

lemma class_attributes_dunder:
  assumes "key \<in> set (class_attributes inherited)"
  shows "key = ''to_dict'' \<or> key = ''from_dict'' \<or> dunder key"
proof -
  from assms have "key = ''__init__'' \<or> key = ''to_dict'' \<or> key = ''from_dict'' \<or>
      key = ''__module__'' \<or> key = ''__doc__'' \<or> key = ''__dict__'' \<or>
      key = ''__weakref__'' \<or> key = ''__class__'' \<or> (key \<in> set inherited \<and> dunder key)"
    by (simp add: class_attributes_def)
  then show ?thesis
  proof (elim disjE)
    assume "key = ''__init__''" then show ?thesis by (simp only: dunder_fixed simp_thms)
  next
    assume "key = ''to_dict''" then show ?thesis by (simp only: simp_thms)
  next
    assume "key = ''from_dict''" then show ?thesis by (simp only: simp_thms)
  next
    assume "key = ''__module__''" then show ?thesis by (simp only: dunder_fixed simp_thms)
  next
    assume "key = ''__doc__''" then show ?thesis by (simp only: dunder_fixed simp_thms)
  next
    assume "key = ''__dict__''" then show ?thesis by (simp only: dunder_fixed simp_thms)
  next
    assume "key = ''__weakref__''" then show ?thesis by (simp only: dunder_fixed simp_thms)
  next
    assume "key = ''__class__''" then show ?thesis by (simp only: dunder_fixed simp_thms)
  next
    assume "key \<in> set inherited \<and> dunder key" then show ?thesis by (simp only: simp_thms)
  qed
qed

lemma plain_name:
  assumes "key \<noteq> ''to_dict''" and "key \<noteq> ''from_dict''"
    and "\<not> (take 2 key = ''__'' \<and> take 2 (rev key) = ''__'')"
  shows "key \<notin> set (class_attributes inherited)"
proof
  assume "key \<in> set (class_attributes inherited)"
  from class_attributes_dunder [OF this] assms(1,2) have "dunder key" by (simp only: simp_thms)
  with assms(3) show False by (simp only: dunder_def simp_thms)
qed

text \<open>
  The loop of \<open>update_task\<close> when no key of the updates names something of the class:
  it returns, the object keeps its attribute names, and an attribute holds the value
  the updates give it, or else the value it held.
\<close>

lemma setattr_names:
  assumes "key \<notin> set (class_attributes inherited)"
  shows "key \<noteq> ''__dict__'' \<and> key \<noteq> ''__class__'' \<and> key \<noteq> ''__weakref__''"
  using assms by (simp add: class_attributes_def)

lemma setattr_task_plain:
  assumes "key \<notin> set (class_attributes inherited)"
  shows "setattr_task obj key v = Inr (dict_set key v obj)"
  using setattr_names [OF assms] by (simp add: setattr_task_def)

lemma apply_updates_effect:
  assumes "\<forall>key \<in> fst ` set ups. key \<notin> set (class_attributes inherited)"
    and "distinct (map fst ups)"
  shows "\<exists>obj'. apply_updates inherited obj ups = (Returned (), obj') \<and>
           map fst obj' = map fst obj \<and>
           (\<forall>k. dict_get obj' k =
              (if k \<in> fst ` set obj
               then (case dict_get ups k of Some v \<Rightarrow> Some v | None \<Rightarrow> dict_get obj k)
               else None))"
  using assms
proof (induction ups arbitrary: obj)
  case Nil
  then show ?case by (simp add: dict_get_absent)
next
  case (Cons p ups)
  obtain key v where p: "p = (key, v)" by (cases p)
  from Cons.prems p have nc: "key \<notin> set (class_attributes inherited)"
    and rest: "\<forall>key \<in> fst ` set ups. key \<notin> set (class_attributes inherited)"
    and d: "distinct (map fst ups)" and fresh: "key \<notin> fst ` set ups" by auto
  have un: "dict_get ups key = None" using fresh by (rule dict_get_absent)
  show ?case
  proof (cases "key \<in> fst ` set obj")
    case True
    let ?o1 = "dict_set key v obj"
    from Cons.IH [OF rest d, of ?o1] obtain obj'
      where r: "apply_updates inherited ?o1 ups = (Returned (), obj')"
        and k: "map fst obj' = map fst ?o1"
        and g: "\<forall>k. dict_get obj' k =
              (if k \<in> fst ` set ?o1
               then (case dict_get ups k of Some v \<Rightarrow> Some v | None \<Rightarrow> dict_get ?o1 k)
               else None)" by blast
    have 1: "apply_updates inherited obj (p # ups) = (Returned (), obj')"
      using True r nc by (simp add: p hasattr_task_def setattr_task_plain)
    have 2: "map fst obj' = map fst obj" using k True by (simp add: keys_dict_set)
    have 3: "dict_get obj' k =
              (if k \<in> fst ` set obj
               then (case dict_get (p # ups) k of Some v \<Rightarrow> Some v | None \<Rightarrow> dict_get obj k)
               else None)" for k
      using g [rule_format, of k] True un
      by (simp add: p set_keys_dict_set dict_get_Cons dict_get_dict_set split: option.splits)
    from 1 2 3 show ?thesis by blast
  next
    case False
    from Cons.IH [OF rest d, of obj] obtain obj'
      where r: "apply_updates inherited obj ups = (Returned (), obj')"
        and k: "map fst obj' = map fst obj"
        and g: "\<forall>k. dict_get obj' k =
              (if k \<in> fst ` set obj
               then (case dict_get ups k of Some v \<Rightarrow> Some v | None \<Rightarrow> dict_get obj k)
               else None)" by blast
    have 1: "apply_updates inherited obj (p # ups) = (Returned (), obj')"
      using False r nc by (simp add: p hasattr_task_def)
    have 3: "dict_get obj' k =
              (if k \<in> fst ` set obj
               then (case dict_get (p # ups) k of Some v \<Rightarrow> Some v | None \<Rightarrow> dict_get obj k)
               else None)" for k
      using g [rule_format, of k] False by (auto simp: p dict_get_Cons)
    from 1 k 3 show ?thesis by blast
  qed
qed

section \<open>Selection of the next task\<close>

lemma last_filter_keep: "xs \<noteq> [] \<Longrightarrow> P (last xs) \<Longrightarrow> last (filter P xs) = last xs"
proof (induction xs)
  case Nil then show ?case by simp
next
  case (Cons a xs)
  show ?case
  proof (cases "xs = []")
    case True with Cons.prems show ?thesis by simp
  next
    case False
    with Cons.prems have P: "P (last xs)" by simp
    then have "filter P xs \<noteq> []" using False last_in_set [OF False]
      by (auto simp: filter_empty_conv)
    with Cons.IH [OF False P] False show ?thesis by simp
  qed
qed

lemma sorted_le_last: "sorted zs \<Longrightarrow> z \<in> set zs \<Longrightarrow> z \<le> last zs"
  by (induction zs) (auto split: if_splits)

text \<open>
  A stable ascending sort of the reversed list, reversed: the head is the first element
  of the original list that carries the greatest key.
\<close>

lemma sorted_reverse_first_max:
  assumes "xs \<noteq> []"
  shows "sorted_reverse f xs \<noteq> [] \<and>
         hd (sorted_reverse f xs) = hd (filter (\<lambda>x. f x = Max (f ` set xs)) xs)"
proof -
  define ys where "ys = sort_key f (rev xs)"
  have ne: "ys \<noteq> []" using assms by (metis ys_def length_sort length_rev length_0_conv)
  have st: "set ys = set xs" by (simp add: ys_def)
  have "sorted (map f ys)" by (simp add: ys_def)
  then have le: "\<And>y. y \<in> set ys \<Longrightarrow> f y \<le> f (last ys)"
    using sorted_le_last [of "map f ys"] ne by (simp add: last_map)
  have mx: "f (last ys) = Max (f ` set xs)"
  proof (rule sym, rule Max_eqI)
    show "finite (f ` set xs)" by simp
    show "\<And>v. v \<in> f ` set xs \<Longrightarrow> v \<le> f (last ys)" using le st by auto
    show "f (last ys) \<in> f ` set xs" using ne st last_in_set by blast
  qed
  let ?P = "\<lambda>x. f x = Max (f ` set xs)"
  have "hd (sorted_reverse f xs) = last ys"
    using ne by (simp add: sorted_reverse_def ys_def hd_rev)
  also have "\<dots> = last (filter ?P ys)" using ne mx by (simp add: last_filter_keep)
  also have "filter ?P ys = rev (filter ?P xs)"
    unfolding ys_def by (simp add: sort_key_stable rev_filter)
  also have "last (rev (filter ?P xs)) = hd (filter ?P xs)"
    by (metis hd_rev rev_rev_ident)
  finally show ?thesis using ne by (simp add: sorted_reverse_def ys_def)
qed

lemma sorted_reverse_set: "set (sorted_reverse f xs) = set xs"
  by (simp add: sorted_reverse_def)

lemma get_next_task_first_max:
  "get_next_task q caps =
     (let avail = available_tasks q caps in
      if avail = [] then None
      else Some (hd (filter (\<lambda>t. priority t = Max (priority ` set avail)) avail)))"
proof (cases "available_tasks q caps = []")
  case True then show ?thesis by (simp add: get_next_task_def)
next
  case False
  from sorted_reverse_first_max [OF False, of priority]
  show ?thesis using False
    by (auto simp: get_next_task_def Let_def split: list.splits)
qed

lemma hd_filter_index:
  assumes "filter P xs \<noteq> []"
  shows "\<exists>i<length xs. xs ! i = hd (filter P xs) \<and> P (xs ! i) \<and> (\<forall>j<i. \<not> P (xs ! j))"
proof -
  from assms obtain y ys where "filter P xs = y # ys" by (cases "filter P xs") auto
  then obtain us vs where xs: "xs = us @ y # vs" and us: "\<forall>u\<in>set us. \<not> P u" and y: "P y"
    by (auto simp: filter_eq_Cons_iff)
  have "xs ! length us = y" using xs by simp
  moreover have "\<forall>j<length us. \<not> P (xs ! j)" using xs us by (simp add: nth_append)
  ultimately show ?thesis using xs y \<open>filter P xs = y # ys\<close>
    by (intro exI [of _ "length us"]) auto
qed

lemma available_iff_eligible: "available q caps t \<longleftrightarrow> eligible q caps t"
  by (auto simp: available_def eligible_def unmet_dependencies_def list_ex_iff list_all_iff
        missing_dep_def Task_init_def split: option.splits)

lemma late_first_queue_eq:
  "late_first_queue =
     [(''a'', demo_task ''a'' ''2024-01-02T00:00:00'' 1),
      (''b'', demo_task ''b'' ''2024-01-01T00:00:00'' 1)]"
  by (simp add: late_first_queue_def add_task_def demo_task_def Task_init_def)

lemma late_first_available:
  "available_tasks late_first_queue [] =
     [demo_task ''a'' ''2024-01-02T00:00:00'' 1, demo_task ''b'' ''2024-01-01T00:00:00'' 1]"
  by (simp add: late_first_queue_eq available_tasks_def dict_values_def available_def
        demo_task_def Task_init_def unmet_dependencies_def or_empty_def)

lemma late_first_next:
  "get_next_task late_first_queue [] = Some (demo_task ''a'' ''2024-01-02T00:00:00'' 1)"
  by (simp add: get_next_task_def late_first_available sorted_reverse_def)
     (simp add: demo_task_def Task_init_def)

lemma blocked_queue_eq:
  "blocked_queue =
     [(''c'', Task_init ''c'' ''2024-01-01T00:00:00'' ''work'' [] None 1 (Some [''zz'']) None)]"
  by (simp add: blocked_queue_def add_task_def Task_init_def)

text \<open>
  Claim C1, as the code has it. When some task is available, \<open>get_next_task\<close> returns
  an available task of maximum priority, and among the available tasks of that
  priority it returns the one that comes first in the iteration order of the queue
  (the order in which the IDs were first added): every task before it in that order
  has a strictly smaller priority. The creation time plays no part.
\<close>

theorem get_next_task_first_of_max_priority:
  assumes "available_tasks q caps \<noteq> []"
  shows "\<exists>t i. get_next_task q caps = Some t \<and> i < length (available_tasks q caps) \<and>
           available_tasks q caps ! i = t \<and>
           (\<forall>c \<in> set (available_tasks q caps). priority c \<le> priority t) \<and>
           (\<forall>j<i. priority (available_tasks q caps ! j) < priority t)"
proof -
  let ?av = "available_tasks q caps"
  let ?m = "Max (priority ` set ?av)"
  let ?P = "\<lambda>t. priority t = ?m"
  have "?m \<in> priority ` set ?av" using assms by (intro Max_in) auto
  then have "filter ?P ?av \<noteq> []" by (auto simp: filter_empty_conv)
  from hd_filter_index [OF this] obtain i where i: "i < length ?av"
    and hd: "?av ! i = hd (filter ?P ?av)" and P: "?P (?av ! i)"
    and before: "\<forall>j<i. \<not> ?P (?av ! j)" by blast
  have le: "\<And>c. c \<in> set ?av \<Longrightarrow> priority c \<le> ?m" by simp
  have "\<forall>j<i. priority (?av ! j) < ?m"
  proof (intro allI impI)
    fix j assume "j < i"
    then have "priority (?av ! j) \<noteq> ?m" using before by blast
    moreover have "priority (?av ! j) \<le> ?m" using le \<open>j < i\<close> i by simp
    ultimately show "priority (?av ! j) < ?m" by simp
  qed
  moreover have "get_next_task q caps = Some (?av ! i)"
    using assms hd by (simp add: get_next_task_first_max Let_def)
  ultimately show ?thesis using i P le by auto
qed

theorem get_next_task_first_of_max_priority_witness:
  "available_tasks late_first_queue [] \<noteq> [] \<and>
   (\<exists>t i. get_next_task late_first_queue [] = Some t \<and>
      i < length (available_tasks late_first_queue []) \<and>
      available_tasks late_first_queue [] ! i = t \<and>
      (\<forall>c \<in> set (available_tasks late_first_queue []). priority c \<le> priority t) \<and>
      (\<forall>j<i. priority (available_tasks late_first_queue [] ! j) < priority t))"
proof -
  have h: "available_tasks late_first_queue [] \<noteq> []" by (simp add: late_first_available)
  from h get_next_task_first_of_max_priority [OF h] show ?thesis by (rule conjI)
qed

text \<open>
  Two available tasks of equal priority; the one created on 1 January was added after
  the one created on 2 January, and the later-created one is returned.
\<close>

theorem get_next_task_tie_not_earliest_created:
  "get_next_task late_first_queue [] = Some (demo_task ''a'' ''2024-01-02T00:00:00'' 1) \<and>
   demo_task ''b'' ''2024-01-01T00:00:00'' 1 \<in> set (available_tasks late_first_queue []) \<and>
   priority (demo_task ''b'' ''2024-01-01T00:00:00'' 1)
     = priority (demo_task ''a'' ''2024-01-02T00:00:00'' 1) \<and>
   created_at (demo_task ''b'' ''2024-01-01T00:00:00'' 1)
     < created_at (demo_task ''a'' ''2024-01-02T00:00:00'' 1)"
  by (simp add: late_first_next late_first_available) (simp add: demo_task_def Task_init_def)

text \<open>
  Claim C2. A task returned by \<open>get_next_task\<close> is a task of the queue that is pending,
  whose required capabilities are all among \<open>caps\<close>, and whose dependencies all resolve
  to completed tasks of the queue; and when no task of the queue satisfies the three
  conditions, \<open>get_next_task\<close> returns \<open>None\<close>.
\<close>

theorem get_next_task_eligible:
  "(get_next_task q caps = Some t \<longrightarrow> t \<in> set (dict_values q) \<and> eligible q caps t) \<and>
   ((\<forall>u \<in> set (dict_values q). \<not> eligible q caps u) \<longrightarrow> get_next_task q caps = None)"
proof -
  have sound: "t \<in> set (dict_values q) \<and> eligible q caps t"
    if "get_next_task q caps = Some t"
  proof -
    from that have "t \<in> set (sorted_reverse priority (available_tasks q caps))"
      by (auto simp: get_next_task_def Let_def split: if_splits list.splits)
    then have "t \<in> set (available_tasks q caps)" by (simp add: sorted_reverse_set)
    then show ?thesis by (simp add: available_tasks_def available_iff_eligible)
  qed
  have none: "get_next_task q caps = None"
    if "\<forall>u \<in> set (dict_values q). \<not> eligible q caps u"
  proof -
    from that have "available_tasks q caps = []"
      by (simp add: available_tasks_def available_iff_eligible filter_empty_conv)
    then show ?thesis by (simp add: get_next_task_def)
  qed
  from sound none show ?thesis by blast
qed

theorem get_next_task_eligible_witness:
  "get_next_task late_first_queue [] = Some (demo_task ''a'' ''2024-01-02T00:00:00'' 1) \<and>
   demo_task ''a'' ''2024-01-02T00:00:00'' 1 \<in> set (dict_values late_first_queue) \<and>
   eligible late_first_queue [] (demo_task ''a'' ''2024-01-02T00:00:00'' 1) \<and>
   dict_values blocked_queue \<noteq> [] \<and>
   list_all (\<lambda>u. \<not> eligible blocked_queue [] u) (dict_values blocked_queue) \<and>
   get_next_task blocked_queue [] = None"
proof -
  let ?a = "demo_task ''a'' ''2024-01-02T00:00:00'' 1"
  have r: "get_next_task late_first_queue [] = Some ?a" by (rule late_first_next)
  from get_next_task_eligible [of late_first_queue "[]" ?a] r
  have 1: "?a \<in> set (dict_values late_first_queue) \<and> eligible late_first_queue [] ?a"
    by blast
  have n: "list_all (\<lambda>u. \<not> eligible blocked_queue [] u) (dict_values blocked_queue)"
    by (simp add: blocked_queue_eq dict_values_def eligible_def Task_init_def or_empty_def
          dict_get_def)
  then have "\<forall>u \<in> set (dict_values blocked_queue). \<not> eligible blocked_queue [] u"
    by (simp add: list_all_iff)
  with get_next_task_eligible [of blocked_queue "[]"]
  have 2: "get_next_task blocked_queue [] = None" by blast
  have 3: "dict_values blocked_queue \<noteq> []" by (simp add: blocked_queue_eq dict_values_def)
  from r 1 2 3 n show ?thesis by simp
qed

section \<open>Adding and updating tasks\<close>

text \<open>
  Claim C4, as the code has it. Adding a task whose ID is already a key of the queue
  returns that ID; afterwards the ID maps to the task just added, every other ID maps
  to what it mapped to before, and the keys of the queue and their order are unchanged.
  There is no check for an existing ID and no error.
\<close>

theorem add_task_replaces_duplicate:
  assumes "id_t t \<in> fst ` set q"
  shows "fst (add_task t q) = id_t t \<and>
         dict_get (snd (add_task t q)) = (dict_get q)(id_t t \<mapsto> t) \<and>
         map fst (snd (add_task t q)) = map fst q"
  using assms by (simp add: add_task_def dict_get_dict_set keys_dict_set)

theorem add_task_replaces_duplicate_witness:
  "id_t (demo_task ''a'' ''2024-01-03T00:00:00'' 7) \<in> fst ` set late_first_queue \<and>
   fst (add_task (demo_task ''a'' ''2024-01-03T00:00:00'' 7) late_first_queue) = ''a'' \<and>
   dict_get (snd (add_task (demo_task ''a'' ''2024-01-03T00:00:00'' 7) late_first_queue)) ''a''
     = Some (demo_task ''a'' ''2024-01-03T00:00:00'' 7) \<and>
   map fst (snd (add_task (demo_task ''a'' ''2024-01-03T00:00:00'' 7) late_first_queue))
     = [''a'', ''b'']"
proof -
  let ?t = "demo_task ''a'' ''2024-01-03T00:00:00'' 7"
  have i: "id_t ?t = ''a''" by (simp add: demo_task_def Task_init_def)
  have h: "id_t ?t \<in> fst ` set late_first_queue" by (simp add: i late_first_queue_eq)
  from add_task_replaces_duplicate [OF h] h show ?thesis by (simp add: i late_first_queue_eq)
qed

text \<open>
  The queue already holds a task under the ID \<open>a\<close>; adding another task with that ID
  returns normally, and the stored task is replaced.
\<close>

theorem add_task_duplicate_no_error:
  "dict_get late_first_queue ''a'' = Some (demo_task ''a'' ''2024-01-02T00:00:00'' 1) \<and>
   add_task (demo_task ''a'' ''2024-01-03T00:00:00'' 7) late_first_queue =
     (''a'', [(''a'', demo_task ''a'' ''2024-01-03T00:00:00'' 7),
              (''b'', demo_task ''b'' ''2024-01-01T00:00:00'' 1)])"
  by (simp add: late_first_queue_eq add_task_def dict_get_def)
     (simp add: demo_task_def Task_init_def)

lemma late_first_objects:
  "objects late_first_queue =
     [(''a'', instance_dict (demo_task ''a'' ''2024-01-02T00:00:00'' 1)),
      (''b'', instance_dict (demo_task ''b'' ''2024-01-01T00:00:00'' 1))]"
  by (simp add: late_first_queue_eq objects_def)

lemma demo_instance_dict:
  "instance_dict (demo_task i now prio) =
     [(''id'', PStr i), (''description'', PStr ''work''), (''requirements'', PList []),
      (''required_capabilities'', PList []), (''priority'', PInt prio),
      (''dependencies'', PList []), (''context'', PDict []), (''status'', PStr ''pending''),
      (''created_at'', PStr now), (''assigned_to'', PNone), (''result'', PNone)]"
  by (simp add: instance_dict_def demo_task_def Task_init_def or_empty_def opt_str_val_def)

lemma demo_colour:
  "''colour'' \<notin> set [''id'', ''description'', ''requirements'', ''required_capabilities'', ''priority'',
           ''dependencies'', ''context'', ''status'', ''created_at'', ''assigned_to'', ''result'']"
  by simp

text \<open>
  Claim C7, as the code has it. When the ID is absent, \<open>update_task\<close> returns \<open>False\<close> and
  the queue is unchanged. When the ID is present, the task object holds the eleven
  attributes id, description, requirements, required_capabilities, priority,
  dependencies, context, status, created_at, assigned_to and result, and no key of
  \<open>updates\<close> is \<^verbatim>\<open>to_dict\<close>, \<^verbatim>\<open>from_dict\<close> or a name that begins and ends with two
  underscores (the names of the methods and special attributes of the object; the
  keys of a dictionary are distinct), \<open>update_task\<close> returns \<open>True\<close>; the other tasks and
  the keys of the queue are unchanged; the object still holds the same eleven
  attributes; and
  each of the eleven, not only status, assigned_to and result, holds the value that
  \<open>updates\<close> gives under its name, whatever the type of that value, or the value it held
  before when \<open>updates\<close> does not name it. A key that names no attribute is ignored.
\<close>

theorem update_task_effect:
  "(dict_get q task_id = None \<longrightarrow>
      update_task inherited task_id updates q = (Returned False, q)) \<and>
   (\<forall>obj. dict_get q task_id = Some obj \<and>
        map fst obj =
          [''id'', ''description'', ''requirements'', ''required_capabilities'', ''priority'',
           ''dependencies'', ''context'', ''status'', ''created_at'', ''assigned_to'', ''result''] \<and>
        distinct (map fst updates) \<and>
        (\<forall>key \<in> fst ` set updates.
           key \<noteq> ''to_dict'' \<and> key \<noteq> ''from_dict'' \<and>
           \<not> (take 2 key = ''__'' \<and> take 2 (rev key) = ''__'')) \<longrightarrow>
      (\<exists>obj' q'. update_task inherited task_id updates q = (Returned True, q') \<and>
         dict_get q' = (dict_get q)(task_id \<mapsto> obj') \<and> map fst q' = map fst q \<and>
         map fst obj' =
          [''id'', ''description'', ''requirements'', ''required_capabilities'', ''priority'',
           ''dependencies'', ''context'', ''status'', ''created_at'', ''assigned_to'', ''result''] \<and>
         (\<forall>key \<in> set
          [''id'', ''description'', ''requirements'', ''required_capabilities'', ''priority'',
           ''dependencies'', ''context'', ''status'', ''created_at'', ''assigned_to'', ''result''].
            dict_get obj' key =
              (case dict_get updates key of Some v \<Rightarrow> Some v | None \<Rightarrow> dict_get obj key))))"
proof (intro conjI allI impI)
  assume "dict_get q task_id = None"
  then show "update_task inherited task_id updates q = (Returned False, q)"
    by (simp add: update_task_def)
next
  fix obj
  let ?names = "[''id'', ''description'', ''requirements'', ''required_capabilities'', ''priority'',
           ''dependencies'', ''context'', ''status'', ''created_at'', ''assigned_to'', ''result'']"
  assume a: "dict_get q task_id = Some obj \<and> map fst obj = ?names \<and>
    distinct (map fst updates) \<and>
    (\<forall>key \<in> fst ` set updates.
       key \<noteq> ''to_dict'' \<and> key \<noteq> ''from_dict'' \<and>
       \<not> (take 2 key = ''__'' \<and> take 2 (rev key) = ''__''))"
  have pl: "\<forall>key \<in> fst ` set updates.
       key \<noteq> ''to_dict'' \<and> key \<noteq> ''from_dict'' \<and>
       \<not> (take 2 key = ''__'' \<and> take 2 (rev key) = ''__'')"
    and d: "distinct (map fst updates)" and names: "map fst obj = ?names"
    by (rule a [THEN conjunct2, THEN conjunct2, THEN conjunct2],
        rule a [THEN conjunct2, THEN conjunct2, THEN conjunct1],
        rule a [THEN conjunct2, THEN conjunct1])
  have nc: "\<forall>key \<in> fst ` set updates. key \<notin> set (class_attributes inherited)"
  proof
    fix key assume "key \<in> fst ` set updates"
    with pl have k: "key \<noteq> ''to_dict'' \<and> key \<noteq> ''from_dict'' \<and>
       \<not> (take 2 key = ''__'' \<and> take 2 (rev key) = ''__'')" by (rule bspec)
    show "key \<notin> set (class_attributes inherited)"
      by (rule plain_name [OF k [THEN conjunct1] k [THEN conjunct2, THEN conjunct1]
            k [THEN conjunct2, THEN conjunct2]])
  qed
  from apply_updates_effect [OF nc d, of obj] obtain obj'
    where r: "apply_updates inherited obj updates = (Returned (), obj')"
      and k: "map fst obj' = map fst obj"
      and g: "\<forall>k. dict_get obj' k =
              (if k \<in> fst ` set obj
               then (case dict_get updates k of Some v \<Rightarrow> Some v | None \<Rightarrow> dict_get obj k)
               else None)" by blast
  from a have "task_id \<in> fst ` set q" using dict_get_keys [of q task_id] by simp
  then have keys: "map fst (dict_set task_id obj' q) = map fst q" by (rule keys_dict_set)
  have upd: "update_task inherited task_id updates q = (Returned True, dict_set task_id obj' q)"
    using a r by (simp add: update_task_def)
  have st: "fst ` set obj = set ?names" using names by (metis list.set_map)
  have vals: "\<forall>key \<in> set ?names. dict_get obj' key =
      (case dict_get updates key of Some v \<Rightarrow> Some v | None \<Rightarrow> dict_get obj key)"
    using g st by simp
  from upd keys k names vals
  show "\<exists>obj' q'. update_task inherited task_id updates q = (Returned True, q') \<and>
         dict_get q' = (dict_get q)(task_id \<mapsto> obj') \<and> map fst q' = map fst q \<and>
         map fst obj' = ?names \<and>
         (\<forall>key \<in> set ?names.
            dict_get obj' key =
              (case dict_get updates key of Some v \<Rightarrow> Some v | None \<Rightarrow> dict_get obj key))"
    by (intro exI [of _ obj'] exI [of _ "dict_set task_id obj' q"])
       (simp only: dict_get_dict_set simp_thms)
qed

theorem update_task_effect_witness:
  "dict_get (objects late_first_queue) ''zz'' = None \<and>
   update_task object_methods ''zz'' demo_updates (objects late_first_queue)
     = (Returned False, objects late_first_queue) \<and>
   dict_get (objects late_first_queue) ''a''
     = Some (instance_dict (demo_task ''a'' ''2024-01-02T00:00:00'' 1)) \<and>
   distinct (map fst demo_updates) \<and>
   list_all (\<lambda>key. key \<noteq> ''to_dict'' \<and> key \<noteq> ''from_dict'' \<and>
               \<not> (take 2 key = ''__'' \<and> take 2 (rev key) = ''__''))
     (map fst demo_updates) \<and>
   (\<exists>obj' q'. update_task object_methods ''a'' demo_updates (objects late_first_queue)
        = (Returned True, q') \<and>
      dict_get q' ''a'' = Some obj' \<and>
      dict_get q' ''b'' = Some (instance_dict (demo_task ''b'' ''2024-01-01T00:00:00'' 1)) \<and>
      dict_get obj' ''status'' = Some (PStr ''completed'') \<and>
      dict_get obj' ''priority'' = Some (PStr ''high'') \<and>
      dict_get obj' ''created_at'' = Some (PStr ''2024-01-02T00:00:00'') \<and>
      dict_get obj' ''colour'' = None)"
proof -
  let ?q = "objects late_first_queue"
  let ?a = "instance_dict (demo_task ''a'' ''2024-01-02T00:00:00'' 1)"
  let ?names = "[''id'', ''description'', ''requirements'', ''required_capabilities'', ''priority'',
           ''dependencies'', ''context'', ''status'', ''created_at'', ''assigned_to'', ''result'']"
  have z: "dict_get ?q ''zz'' = None" by (simp add: late_first_objects dict_get_def)
  have a: "dict_get ?q ''a'' = Some ?a" by (simp add: late_first_objects dict_get_def)
  have b: "dict_get ?q ''b'' = Some (instance_dict (demo_task ''b'' ''2024-01-01T00:00:00'' 1))"
    by (simp add: late_first_objects dict_get_def)
  have n: "map fst ?a = ?names" by (simp add: demo_instance_dict)
  have d: "distinct (map fst demo_updates)" by (simp add: demo_updates_def)
  have f: "list_all (\<lambda>key. key \<noteq> ''to_dict'' \<and> key \<noteq> ''from_dict'' \<and>
               \<not> (take 2 key = ''__'' \<and> take 2 (rev key) = ''__''))
     (map fst demo_updates)"
    by (simp add: demo_updates_def)
  then have f': "\<forall>key \<in> fst ` set demo_updates.
       key \<noteq> ''to_dict'' \<and> key \<noteq> ''from_dict'' \<and>
       \<not> (take 2 key = ''__'' \<and> take 2 (rev key) = ''__'')"
    by (simp add: list_all_iff)
  note th = update_task_effect [of ?q _ object_methods demo_updates]
  from th [of "''zz''"] z
  have 1: "update_task object_methods ''zz'' demo_updates ?q = (Returned False, ?q)" by blast
  have "\<exists>obj' q'. update_task object_methods ''a'' demo_updates ?q = (Returned True, q') \<and>
      dict_get q' = (dict_get ?q)(''a'' \<mapsto> obj') \<and> map fst q' = map fst ?q \<and>
      map fst obj' = ?names \<and>
      (\<forall>key \<in> set ?names. dict_get obj' key =
          (case dict_get demo_updates key of Some v \<Rightarrow> Some v | None \<Rightarrow> dict_get ?a key))"
    by (rule th [of "''a''", THEN conjunct2, THEN spec, of ?a, THEN mp]) (intro conjI a n d f')
  then obtain obj' where "\<exists>q'. update_task object_methods ''a'' demo_updates ?q = (Returned True, q') \<and>
      dict_get q' = (dict_get ?q)(''a'' \<mapsto> obj') \<and> map fst q' = map fst ?q \<and>
      map fst obj' = ?names \<and>
      (\<forall>key \<in> set ?names. dict_get obj' key =
          (case dict_get demo_updates key of Some v \<Rightarrow> Some v | None \<Rightarrow> dict_get ?a key))" ..
  then obtain q' where all: "update_task object_methods ''a'' demo_updates ?q = (Returned True, q') \<and>
      dict_get q' = (dict_get ?q)(''a'' \<mapsto> obj') \<and> map fst q' = map fst ?q \<and>
      map fst obj' = ?names \<and>
      (\<forall>key \<in> set ?names. dict_get obj' key =
          (case dict_get demo_updates key of Some v \<Rightarrow> Some v | None \<Rightarrow> dict_get ?a key))" ..
  note u = all [THEN conjunct1]
    and g = all [THEN conjunct2, THEN conjunct1]
    and k = all [THEN conjunct2, THEN conjunct2, THEN conjunct2, THEN conjunct1]
    and s = all [THEN conjunct2, THEN conjunct2, THEN conjunct2, THEN conjunct2]
  from g b have q: "dict_get q' ''a'' = Some obj'"
    "dict_get q' ''b'' = Some (instance_dict (demo_task ''b'' ''2024-01-01T00:00:00'' 1))"
    by simp_all
  from s have "dict_get obj' ''status'' =
      (case dict_get demo_updates ''status'' of Some v \<Rightarrow> Some v | None \<Rightarrow> dict_get ?a ''status'')"
    by simp
  then have v1: "dict_get obj' ''status'' = Some (PStr ''completed'')"
    by (simp add: demo_updates_def dict_get_def)
  from s have "dict_get obj' ''priority'' =
      (case dict_get demo_updates ''priority'' of Some v \<Rightarrow> Some v
       | None \<Rightarrow> dict_get ?a ''priority'')" by simp
  then have v2: "dict_get obj' ''priority'' = Some (PStr ''high'')"
    by (simp add: demo_updates_def dict_get_def)
  from s have "dict_get obj' ''created_at'' =
      (case dict_get demo_updates ''created_at'' of Some v \<Rightarrow> Some v
       | None \<Rightarrow> dict_get ?a ''created_at'')" by simp
  then have v3: "dict_get obj' ''created_at'' = Some (PStr ''2024-01-02T00:00:00'')"
    by (simp add: demo_updates_def demo_instance_dict dict_get_def)
  have "''colour'' \<notin> fst ` set obj'" using k by (metis (no_types) list.set_map n demo_colour)
  then have v4: "dict_get obj' ''colour'' = None" by (rule dict_get_absent)
  from z 1 a d f u q v1 v2 v3 v4 show ?thesis by blast
qed

text \<open>
  An update that names \<open>priority\<close>, a field outside status, assigned_to and result:
  \<open>update_task\<close> returns \<open>True\<close> and the priority of the stored task changes from 1 to 9.
\<close>

theorem update_task_changes_priority:
  "dict_get (objects late_first_queue) ''a''
     = Some (instance_dict (demo_task ''a'' ''2024-01-02T00:00:00'' 1)) \<and>
   dict_get (instance_dict (demo_task ''a'' ''2024-01-02T00:00:00'' 1)) ''priority''
     = Some (PInt 1) \<and>
   update_task object_methods ''a'' [(''priority'', PInt 9)] (objects late_first_queue) =
     (Returned True,
      [(''a'', instance_dict (demo_task ''a'' ''2024-01-02T00:00:00'' 9)),
       (''b'', instance_dict (demo_task ''b'' ''2024-01-01T00:00:00'' 1))]) \<and>
   dict_get (instance_dict (demo_task ''a'' ''2024-01-02T00:00:00'' 9)) ''priority''
     = Some (PInt 9)"
  by (simp add: late_first_objects update_task_def dict_get_def demo_instance_dict
        hasattr_task_def setattr_task_def)

section \<open>Agents: status and current task\<close>

lemma log_a_fields [simp]:
  "status_a (log_a l m args a) = status_a a"
  "current_task (log_a l m args a) = current_task a"
  "id_a (log_a l m args a) = id_a a"
  "name (log_a l m args a) = name a"
  "capabilities (log_a l m args a) = capabilities a"
  by (simp_all add: log_a_def)

text \<open>What a call can do to the status and the current task of the agent.\<close>

lemma assign_task_body_agent:
  assumes "assign_task_body env task a w = (out, a', w')"
  shows "(status_a a' = status_a a \<and> current_task a' = current_task a \<and> out \<noteq> Returned True) \<or>
         (status_a a' = ''working'' \<and> current_task a' = Some task)"
  using assms
  by (auto simp: assign_task_body_def Let_def split: sum.splits prod.splits outcome.splits)

lemma assign_task_agent:
  assumes "assign_task env task a w = (out, a', w')"
  shows "(status_a a' = status_a a \<and> current_task a' = current_task a) \<or>
         (status_a a' = ''working'' \<and> current_task a' = Some task)"
proof (cases "status_a a \<noteq> ''idle'' \<or> isl (lacks_capabilities a task) \<or>
    lacks_capabilities a task = Inr True")
  case True
  with assms show ?thesis
    by (auto simp: assign_task_def split: sum.splits if_splits)
next
  case False
  then have i: "status_a a = ''idle''" and l: "lacks_capabilities a task = Inr False"
    by (cases "lacks_capabilities a task"; auto)+
  obtain o1 a1 w1 where b: "assign_task_body env task a w = (o1, a1, w1)"
    by (cases "assign_task_body env task a w") auto
  from assms i l b have "status_a a' = status_a a1 \<and> current_task a' = current_task a1"
    by (auto simp: assign_task_def split: sum.splits if_splits outcome.splits)
  with assign_task_body_agent [OF b] show ?thesis by auto
qed

lemma report_failed_agent:
  "report_failed e p a w = (out, p', a', w') \<Longrightarrow>
     status_a a' = status_a a \<and> current_task a' = current_task a"
  by (auto simp: report_failed_def split: if_splits)

lemma report_progress_agent:
  assumes "report_progress env progress a w = (out, p', a', w')"
  shows "(status_a a' = status_a a \<and> current_task a' = current_task a) \<or>
         (status_a a' = ''idle'' \<and> current_task a' = None)"
  using assms
  by (auto simp: report_progress_def Let_def
      split: if_splits sum.splits prod.splits outcome.splits dest: report_failed_agent)

lemma call_agent_exclusive:
  assumes "exclusive (fst s)"
  shows "exclusive (fst (call_agent env c s))"
proof (cases s)
  case (Pair a w)
  show ?thesis
  proof (cases c)
    case (Assign_task task)
    obtain out a' w' where r: "assign_task env task a w = (out, a', w')"
      by (cases "assign_task env task a w") auto
    from assign_task_agent [OF r] assms Pair have "exclusive a'"
      by (auto simp: exclusive_def)
    with r Pair Assign_task show ?thesis by simp
  next
    case (Report_progress progress)
    obtain out p' a' w' where r: "report_progress env progress a w = (out, p', a', w')"
      by (cases "report_progress env progress a w") auto
    from report_progress_agent [OF r] assms Pair have "exclusive a'"
      by (auto simp: exclusive_def)
    with r Pair Report_progress show ?thesis by simp
  qed
qed

lemma call_agent_seq_exclusive:
  "exclusive (fst s) \<Longrightarrow> exclusive (fst (call_agent_seq env calls s))"
  unfolding call_agent_seq_def
  by (induction calls arbitrary: s) (simp_all add: call_agent_exclusive)

text \<open>
  Claim C5. An agent as its constructor leaves it, after any sequence of calls of
  \<open>assign_task\<close> and \<open>report_progress\<close> with any arguments, and whatever the memory client
  does in each call (return or raise, any exception): its status is working exactly
  when its current task is not \<open>None\<close>, and idle exactly when it is \<open>None\<close>. A call that
  raises leaves the agent in the state it had reached, and the sequence goes on from
  there.
\<close>

theorem agent_exclusive_after_every_call:
  "exclusive (fst (call_agent_seq env calls (Agent_init nm ident caps, w)))"
  by (rule call_agent_seq_exclusive) (simp add: exclusive_def Agent_init_def)

section \<open>Agents: reporting progress\<close>





lemma demo_assigned_eq:
  "demo_assigned =
     (demo_agent\<lparr>current_task := Some (to_dict (demo_task ''a'' ''2024-01-02T00:00:00'' 1)),
        status_a := ''working'',
        logger_a := [(Info, ''Assigned task {} to agent {}'', [PStr ''a'', PStr ''Coder''])]\<rparr>,
      \<lparr>short_term =
         [((''task:'', PStr ''a''), PDict (to_dict (demo_task ''a'' ''2024-01-02T00:00:00'' 1)))],
       long_term = [],
       world_state = [((''task_assignment:'', PStr ''a''),
                       assignment_record ''coder_1a2b3c4d'' ''2024-01-05T00:00:00'')]\<rparr>)"
  by (simp add: demo_assigned_def assign_task_def assign_task_body_def demo_agent_def
        Agent_init_def lacks_capabilities_def get_or_def dict_get_def to_dict_def demo_task_def
        Task_init_def or_empty_def subscript_def mock_env_def MockMTMAClient_init_def log_a_def
        Let_def)

lemma demo_task_id:
  "subscript (to_dict (demo_task ''a'' ''2024-01-02T00:00:00'' 1)) ''id'' = Inr (PStr ''a'')"
  by (simp add: subscript_def dict_get_def to_dict_def)
     (simp add: demo_task_def Task_init_def)





section \<open>The orchestrator: updates, handlers and the monitor\<close>

text \<open>Reading back the object of a task gives the task, and nothing else reads as it.\<close>

lemma Task_of_object_instance: "Task_of_object (instance_dict t) = Inr t"
  by (cases t; cases "assigned_to t")
     (simp_all add: Task_of_object_def instance_dict_def bnd_def subscript_def dict_get_def
        as_strs_map opt_str_val_def)

lemma Task_of_object_exact: "Task_of_object obj = Inr t \<Longrightarrow> instance_dict t = obj"
  unfolding Task_of_object_def bnd_Inr Let_def
  by (elim exE conjE) (simp split: if_splits)

text \<open>The two updates that the orchestrator makes.\<close>

lemma apply_updates_status_result:
  "apply_updates inh (instance_dict t) [(''status'', PStr s), (''result'', v)]
     = (Returned (), instance_dict (t\<lparr>status := s, result := v\<rparr>))"
  by (simp add: hasattr_task_def setattr_task_def instance_dict_def)

lemma apply_updates_status_assigned_to:
  "apply_updates inh (instance_dict t) [(''status'', PStr s), (''assigned_to'', PStr x)]
     = (Returned (), instance_dict (t\<lparr>status := s, assigned_to := Some x\<rparr>))"
  by (simp add: hasattr_task_def setattr_task_def instance_dict_def opt_str_val_def)

lemma update_task_typed_status_result:
  "update_task_typed inh k [(''status'', PStr s), (''result'', v)] q =
     (case dict_get q k of
        None \<Rightarrow> Inr (False, q)
      | Some t \<Rightarrow> Inr (True, dict_set k (t\<lparr>status := s, result := v\<rparr>) q))"
  unfolding update_task_typed_def apply_updates_status_result
  by (simp add: Task_of_object_instance bnd_def split: option.splits)

lemma update_task_typed_status_assigned_to:
  "update_task_typed inh k [(''status'', PStr s), (''assigned_to'', PStr x)] q =
     (case dict_get q k of
        None \<Rightarrow> Inr (False, q)
      | Some t \<Rightarrow> Inr (True, dict_set k (t\<lparr>status := s, assigned_to := Some x\<rparr>) q))"
  unfolding update_task_typed_def apply_updates_status_assigned_to
  by (simp add: Task_of_object_instance bnd_def split: option.splits)

lemma dict_get_objects: "dict_get (objects q) k = map_option instance_dict (dict_get q k)"
  by (induction q) (auto simp: objects_def dict_get_def)

lemma objects_dict_set: "objects (dict_set k t q) = dict_set k (instance_dict t) (objects q)"
  by (induction q) (auto simp: objects_def)

text \<open>
  Whenever \<open>update_task_typed\<close> returns, \<open>update_task\<close> on the objects of the queue returns
  the same flag and leaves the objects of the queue that \<open>update_task_typed\<close> leaves.
\<close>

lemma update_task_typed_refines:
  assumes "update_task_typed inh k ups q = Inr (b, q')"
  shows "update_task inh k ups (objects q) = (Returned b, objects q')"
proof (cases "dict_get q k")
  case None
  with assms show ?thesis by (simp add: update_task_typed_def update_task_def dict_get_objects)
next
  case (Some t)
  obtain out obj' where r: "apply_updates inh (instance_dict t) ups = (out, obj')"
    by (cases "apply_updates inh (instance_dict t) ups") auto
  from assms Some r obtain t' where o: "out = Returned ()" and t': "Task_of_object obj' = Inr t'"
    and b: "b = True" and q': "q' = dict_set k t' q"
    by (cases out) (auto simp: update_task_typed_def bnd_Inr)
  from Task_of_object_exact [OF t'] have "obj' = instance_dict t'" by simp
  with Some r o b q' show ?thesis
    by (simp add: update_task_def dict_get_objects objects_dict_set)
qed

text \<open>\<open>get_next_entry\<close> selects the entry of the task that \<open>get_next_task\<close> returns.\<close>

lemma insort_key_map:
  "map g (insort_key (\<lambda>p. f (g p)) x ys) = insort_key f (g x) (map g ys)"
  by (induction ys) simp_all

lemma sort_key_map: "map g (sort_key (\<lambda>p. f (g p)) xs) = sort_key f (map g xs)"
  by (induction xs) (simp_all add: insort_key_map)

lemma sorted_reverse_map:
  "map g (sorted_reverse (\<lambda>p. f (g p)) xs) = sorted_reverse f (map g xs)"
  by (simp add: sorted_reverse_def rev_map [symmetric] sort_key_map)

lemma get_next_entry_task: "map_option snd (get_next_entry q caps) = get_next_task q caps"
proof -
  let ?es = "filter (\<lambda>p. available q caps (snd p)) q"
  have a: "available_tasks q caps = map snd ?es"
    by (simp add: available_tasks_def dict_values_def filter_map comp_def)
  have "map snd (sorted_reverse (\<lambda>p. priority (snd p)) ?es)
          = sorted_reverse priority (available_tasks q caps)"
    by (simp add: a sorted_reverse_map)
  then show ?thesis
    by (cases "sorted_reverse (\<lambda>p. priority (snd p)) ?es")
       (auto simp: get_next_entry_def get_next_task_def Let_def sorted_reverse_def
          split: list.splits)
qed

lemma log_o_fields [simp]:
  "agents (log_o l m args orch) = agents orch"
  "task_queue (log_o l m args orch) = task_queue orch"
  by (simp_all add: log_o_def)

lemma update_task_at_settled:
  "update_task_at inh task_id [(''status'', PStr st), (''result'', PDict res)] q = Inr (b, q')
     \<Longrightarrow> q' = settled st res task_id q"
  by (cases task_id)
     (auto simp: update_task_at_def settled_def update_task_typed_status_result
        split: option.splits)

lemma update_task_at_raises:
  "update_task_at inh task_id [(''status'', PStr st), (''result'', PDict res)] q = Inl e
     \<Longrightarrow> settled st res task_id q = q"
  by (cases task_id)
     (auto simp: update_task_at_def settled_def update_task_typed_status_result
        split: option.splits)

lemma handle_completed_task_queue:
  assumes "handle_completed_task env task_id res orch w = (out, orch', w')"
  shows "agents orch' = agents orch \<and>
         task_queue orch' = settled ''completed'' res task_id (task_queue orch)"
  using assms
  by (auto simp: handle_completed_task_def Let_def
      split: sum.splits prod.splits outcome.splits
      dest: update_task_at_settled update_task_at_raises)

lemma handle_failed_task_queue:
  assumes "handle_failed_task env task_id res orch w = (out, orch', w')"
  shows "agents orch' = agents orch \<and>
         task_queue orch' = settled ''failed'' res task_id (task_queue orch)"
  using assms
  by (auto simp: handle_failed_task_def Let_def
      split: sum.splits prod.splits outcome.splits
      dest: update_task_at_settled update_task_at_raises)

lemma settled_terminal:
  assumes "dict_get q k = Some t" and "terminal t" and "st = ''completed'' \<or> st = ''failed''"
  shows "\<exists>t'. dict_get (settled st res task_id q) k = Some t' \<and> terminal t' \<and>
               t'\<lparr>status := status t, result := result t\<rparr> = t"
proof (cases "task_id = PStr k")
  case True
  with assms show ?thesis
    by (auto simp: settled_def dict_get_dict_set terminal_def)
next
  case False
  then have "dict_get (settled st res task_id q) k = dict_get q k"
    by (cases task_id) (auto simp: settled_def dict_get_dict_set split: option.splits)
  with assms show ?thesis by simp
qed

lemma monitor_agent_queue:
  assumes "monitor_agent env a orch w = (out, orch', w')"
  shows "agents orch' = agents orch \<and>
         (task_queue orch' = task_queue orch \<or>
          (\<exists>st res task_id. (st = ''completed'' \<or> st = ''failed'') \<and>
             task_queue orch' = settled st res task_id (task_queue orch)))"
proof -
  consider (same) "orch' = orch"
    | (completed) task_id d w1 where "handle_completed_task env task_id d orch w1 = (out, orch', w')"
    | (failed) task_id d w1 where "handle_failed_task env task_id d orch w1 = (out, orch', w')"
    using assms
    by (auto simp: monitor_agent_def split: if_splits sum.splits prod.splits outcome.splits
        pyval.splits)
  then show ?thesis
  proof cases
    case same then show ?thesis by simp
  next
    case completed
    from handle_completed_task_queue [OF this] show ?thesis by blast
  next
    case failed
    from handle_failed_task_queue [OF this] show ?thesis by blast
  qed
qed


lemma stays_terminal_refl: "stays_terminal q q"
  by (auto simp: stays_terminal_def)

lemma stays_terminal_trans:
  assumes "stays_terminal q q1" and "stays_terminal q1 q2"
  shows "stays_terminal q q2"
  unfolding stays_terminal_def
proof (intro allI impI)
  fix k t assume h: "dict_get q k = Some t \<and> terminal t"
  with assms(1) obtain t1 where 1: "dict_get q1 k = Some t1" "terminal t1"
    "t1\<lparr>status := status t, result := result t\<rparr> = t" by (auto simp: stays_terminal_def)
  with assms(2) obtain t2 where 2: "dict_get q2 k = Some t2" "terminal t2"
    "t2\<lparr>status := status t1, result := result t1\<rparr> = t1" by (auto simp: stays_terminal_def)
  have "t2\<lparr>status := status t, result := result t\<rparr> = t"
    using 1(3) 2(3) by (cases t; cases t1; cases t2) auto
  with 2 show "\<exists>t'. dict_get q2 k = Some t' \<and> terminal t' \<and>
      t'\<lparr>status := status t, result := result t\<rparr> = t" by blast
qed

lemma monitor_agent_terminal:
  assumes "monitor_agent env a orch w = (out, orch', w')"
  shows "stays_terminal (task_queue orch) (task_queue orch')"
  using monitor_agent_queue [OF assms]
  by (auto simp: stays_terminal_def intro: settled_terminal)

lemma monitor_loop_terminal:
  "monitor_loop env ags orch w = (out, orch', w') \<Longrightarrow>
     stays_terminal (task_queue orch) (task_queue orch')"
proof (induction ags arbitrary: orch w)
  case Nil then show ?case by (simp add: stays_terminal_refl)
next
  case (Cons p ags)
  obtain k a where p: "p = (k, a)" by (cases p)
  obtain o1 orch1 w1 where m: "monitor_agent env a orch w = (o1, orch1, w1)"
    by (cases "monitor_agent env a orch w") auto
  note s1 = monitor_agent_terminal [OF m]
  show ?case
  proof (cases o1)
    case (Raised e)
    with Cons.prems p m s1 show ?thesis by simp
  next
    case (Returned u)
    with Cons.prems p m have "monitor_loop env ags orch1 w1 = (out, orch', w')" by simp
    from stays_terminal_trans [OF s1 Cons.IH [OF this]] show ?thesis .
  qed
qed

lemma monitor_agent_completed:
  assumes "status_a a = ''working''" and "current_task a = Some ct"
    and "subscript ct ''id'' = Inr task_id"
    and "get_world_state env (''task_progress:'', task_id) w = (Returned (PDict d), w1)"
    and "dict_get d ''status'' = Some (PStr ''completed'')"
  shows "monitor_agent env a orch w = handle_completed_task env task_id d orch w1"
proof -
  from assms(2,3) have ne: "\<not> no_current_task a"
    by (auto simp: no_current_task_def subscript_def dict_get_def)
  from assms(5) have "d \<noteq> []" by (auto simp: dict_get_def)
  with assms ne show ?thesis by (simp add: monitor_agent_def)
qed

lemma monitor_agent_failed:
  assumes "status_a a = ''working''" and "current_task a = Some ct"
    and "subscript ct ''id'' = Inr task_id"
    and "get_world_state env (''task_progress:'', task_id) w = (Returned (PDict d), w1)"
    and "dict_get d ''status'' = Some (PStr ''failed'')"
  shows "monitor_agent env a orch w = handle_failed_task env task_id d orch w1"
proof -
  from assms(2,3) have ne: "\<not> no_current_task a"
    by (auto simp: no_current_task_def subscript_def dict_get_def)
  from assms(5) have "d \<noteq> []" by (auto simp: dict_get_def)
  with assms ne show ?thesis by (simp add: monitor_agent_def)
qed



lemma get_next_entry_Some:
  assumes "get_next_entry q caps = Some (k, t)"
  shows "(k, t) \<in> set q \<and> available q caps t"
proof -
  from assms have "(k, t) \<in> set (sorted_reverse (\<lambda>p. priority (snd p))
      (filter (\<lambda>p. available q caps (snd p)) q))"
    by (auto simp: get_next_entry_def split: list.splits)
  then show ?thesis by (simp add: sorted_reverse_set)
qed

text \<open>The concrete system, step by step.\<close>

lemma demo_assign_call:
  "assign_task (mock_env ''2024-01-05T00:00:00'')
     (to_dict (demo_task ''a'' ''2024-01-02T00:00:00'' 1)) demo_agent MockMTMAClient_init
   = (Returned True, demo_assigned)"
  unfolding demo_assigned_eq
  by (simp add: assign_task_def assign_task_body_def demo_agent_def
        Agent_init_def lacks_capabilities_def get_or_def dict_get_def to_dict_def demo_task_def
        Task_init_def or_empty_def subscript_def mock_env_def MockMTMAClient_init_def log_a_def
        Let_def)

lemma late_first_entry:
  "get_next_entry late_first_queue [''python''] =
     Some (''a'', demo_task ''a'' ''2024-01-02T00:00:00'' 1)"
proof -
  have "filter (\<lambda>p. available late_first_queue [''python''] (snd p)) late_first_queue
          = late_first_queue"
    by (simp add: late_first_queue_eq available_def demo_task_def Task_init_def
          unmet_dependencies_def or_empty_def)
  then show ?thesis
    by (simp add: get_next_entry_def)
       (simp add: late_first_queue_eq sorted_reverse_def demo_task_def Task_init_def)
qed

lemma demo_running_eq:
  "demo_running =
     (\<lparr>agents = [(''coder_1a2b3c4d'', fst demo_assigned)],
       task_queue =
         [(''a'', (demo_task ''a'' ''2024-01-02T00:00:00'' 1)
                   \<lparr>status := ''assigned'', assigned_to := Some ''coder_1a2b3c4d''\<rparr>),
          (''b'', demo_task ''b'' ''2024-01-01T00:00:00'' 1)],
       logger_o = []\<rparr>,
      snd demo_assigned)"
proof -
  have c: "capabilities demo_agent = [''python'']" "status_a demo_agent = ''idle''"
    by (simp_all add: demo_agent_def Agent_init_def)
  have i: "id_a (fst demo_assigned) = ''coder_1a2b3c4d''"
    by (simp add: demo_assigned_eq demo_agent_def Agent_init_def)
  have t: "id_t (demo_task ''a'' ''2024-01-02T00:00:00'' 1) = ''a''"
    by (simp add: demo_task_def Task_init_def)
  have "assign_tasks_agent (mock_env ''2024-01-05T00:00:00'') demo_agent late_first_queue
          MockMTMAClient_init
        = (Returned 1, fst demo_assigned,
           [(''a'', (demo_task ''a'' ''2024-01-02T00:00:00'' 1)
                   \<lparr>status := ''assigned'', assigned_to := Some ''coder_1a2b3c4d''\<rparr>),
            (''b'', demo_task ''b'' ''2024-01-01T00:00:00'' 1)],
           snd demo_assigned)"
    unfolding assign_tasks_agent_def c late_first_entry
    by (simp add: demo_assign_call Let_def i t update_task_typed_status_assigned_to
          case_prod_beta late_first_queue_eq dict_get_def)
  then show ?thesis
    by (simp add: demo_running_def assign_tasks_def demo_start_def)
qed

lemma demo_reported_eq:
  "demo_reported st (snd demo_assigned) =
     (snd demo_assigned)\<lparr>world_state := world_state (snd demo_assigned) @
        [((''task_progress:'', PStr ''a''), PDict (demo_progress st))]\<rparr>"
  by (simp add: demo_reported_def mock_env_def demo_assigned_eq assignment_record_def)

lemma demo_reported_record:
  "get_world_state (mock_env now) (''task_progress:'', PStr ''a'')
     (demo_reported st (snd demo_assigned))
   = (Returned (PDict (demo_progress st)), demo_reported st (snd demo_assigned))"
  by (simp add: demo_reported_eq)
     (simp add: mock_env_def mock_get_def dict_get_def demo_assigned_eq assignment_record_def)

lemma demo_working:
  "status_a (fst demo_assigned) = ''working''"
  "current_task (fst demo_assigned) = Some (to_dict (demo_task ''a'' ''2024-01-02T00:00:00'' 1))"
  by (simp_all add: demo_assigned_eq)

lemma demo_monitored_eq:
  "monitor_progress (mock_env ''2024-01-07T00:00:00'') (fst demo_running)
       (demo_reported ''completed'' (snd demo_running))
   = (Returned (),
      \<lparr>agents = [(''coder_1a2b3c4d'', fst demo_assigned)],
       task_queue =
         [(''a'', (demo_task ''a'' ''2024-01-02T00:00:00'' 1)
                   \<lparr>status := ''completed'', assigned_to := Some ''coder_1a2b3c4d'',
                     result := PDict (demo_progress ''completed'')\<rparr>),
          (''b'', demo_task ''b'' ''2024-01-01T00:00:00'' 1)],
       logger_o = [(Info, ''Task {} completed successfully'', [PStr ''a''])]\<rparr>,
      demo_reported ''completed'' (snd demo_assigned))"
proof -
  let ?env = "mock_env ''2024-01-07T00:00:00''"
  let ?w = "demo_reported ''completed'' (snd demo_assigned)"
  have s: "dict_get (demo_progress ''completed'') ''status'' = Some (PStr ''completed'')"
    by (simp add: demo_progress_def dict_get_def)
  have l: "get_long_term ?env (''task:'', PStr ''a'') ?w = (Returned PNone, ?w)"
    by (simp add: demo_reported_eq)
       (simp add: mock_env_def mock_get_def dict_get_def demo_assigned_eq)
  have m: "monitor_agent ?env (fst demo_assigned) (fst demo_running) ?w
      = handle_completed_task ?env (PStr ''a'') (demo_progress ''completed'')
          (fst demo_running) ?w"
    by (rule monitor_agent_completed [OF demo_working demo_task_id demo_reported_record s])
  have i: "inherited_names ?env = object_methods" by (simp add: mock_env_def)
  have h: "handle_completed_task ?env (PStr ''a'') (demo_progress ''completed'')
          (fst demo_running) ?w
      = (Returned (),
         \<lparr>agents = [(''coder_1a2b3c4d'', fst demo_assigned)],
          task_queue =
            [(''a'', (demo_task ''a'' ''2024-01-02T00:00:00'' 1)
                   \<lparr>status := ''completed'', assigned_to := Some ''coder_1a2b3c4d'',
                     result := PDict (demo_progress ''completed'')\<rparr>),
             (''b'', demo_task ''b'' ''2024-01-01T00:00:00'' 1)],
          logger_o = [(Info, ''Task {} completed successfully'', [PStr ''a''])]\<rparr>, ?w)"
    unfolding handle_completed_task_def update_task_at_def i
    by (simp add: update_task_typed_status_result mirror_long_term_def l demo_running_eq
          dict_get_def log_o_def Let_def)
  show ?thesis
    by (simp add: monitor_progress_def demo_running_eq)
       (simp add: m [unfolded demo_running_eq, simplified] h [unfolded demo_running_eq, simplified])
qed



section \<open>The orchestrator: assigning tasks\<close>

lemma keyed_dict_get:
  assumes "keyed_by_id q" and "(k, t) \<in> set q"
  shows "dict_get q k = Some t \<and> id_t t = k"
  using assms by (auto simp: keyed_by_id_def dict_get_def list_all_iff)

lemma dict_set_twice: "dict_set k v (dict_set k v' q) = dict_set k v q"
  by (induction q) auto

lemma list_all_dict_set:
  "list_all P q \<Longrightarrow> P (k, v) \<Longrightarrow> list_all P (dict_set k v q)"
  by (induction q) auto

lemma keyed_dict_set:
  assumes "keyed_by_id q" and "dict_get q k = Some t" and "id_t t' = k"
  shows "keyed_by_id (dict_set k t' q)"
proof -
  from assms(2) have k: "k \<in> fst ` set q" using dict_get_keys [of q k] by simp
  from assms(1) have "list_all (\<lambda>p. id_t (snd p) = fst p) (dict_set k t' q)"
    by (intro list_all_dict_set) (simp_all add: keyed_by_id_def assms(3))
  with assms(1) k show ?thesis by (simp add: keyed_by_id_def keys_dict_set)
qed

lemma keeps_terminal_refl: "keeps_terminal q q"
  by (simp add: keeps_terminal_def)

lemma keeps_terminal_trans: "keeps_terminal q q1 \<Longrightarrow> keeps_terminal q1 q2 \<Longrightarrow> keeps_terminal q q2"
  by (simp add: keeps_terminal_def)

lemma keeps_terminal_pending:
  assumes "dict_get q k = Some t" and "status t = ''pending''"
  shows "keeps_terminal q (dict_set k t' q)"
  unfolding keeps_terminal_def
proof (intro allI impI)
  fix k0 t0 assume h: "dict_get q k0 = Some t0 \<and> terminal t0"
  with assms have "k0 \<noteq> k" by (auto simp: terminal_def)
  with h show "dict_get (dict_set k t' q) k0 = Some t0" by (simp add: dict_get_dict_set)
qed

text \<open>
  The step of \<open>assign_tasks\<close> for one agent leaves the queue as it is, or marks one
  pending task of the queue as assigned.
\<close>

lemma assign_tasks_agent_cases:
  assumes "assign_tasks_agent env a q w = (out, a', q', w')" and "keyed_by_id q"
  shows "q' = q \<or>
         (\<exists>k t. dict_get q k = Some t \<and> status t = ''pending'' \<and> id_t t = k \<and>
            q' = dict_set k (t\<lparr>status := ''assigned'', assigned_to := Some (id_a a')\<rparr>) q)"
proof (cases "get_next_entry q (capabilities a)")
  case None
  with assms(1) show ?thesis by (auto simp: assign_tasks_agent_def split: if_splits)
next
  case (Some p)
  obtain k t where p: "p = (k, t)" by (cases p)
  from Some p get_next_entry_Some have "(k, t) \<in> set q" and av: "available q (capabilities a) t"
    by blast+
  with keyed_dict_get [OF assms(2)] have g: "dict_get q k = Some t" and i: "id_t t = k" by blast+
  from av have pe: "status t = ''pending''" by (simp add: available_def split: if_splits)
  obtain o1 a1 w1 where r: "assign_task env (to_dict t) a w = (o1, a1, w1)"
    by (cases "assign_task env (to_dict t) a w") auto
  let ?t' = "t\<lparr>status := ''assigned'', assigned_to := Some (id_a a1)\<rparr>"
  have u: "update_task_typed (inherited_names env) (id_t ?t')
             [(''status'', PStr ''assigned''), (''assigned_to'', PStr (id_a a1))] (dict_set k ?t' q)
           = Inr (True, dict_set k ?t' q)"
    by (simp add: update_task_typed_status_assigned_to i dict_get_dict_set dict_set_twice)
  show ?thesis
  proof (cases "status_a a = ''idle'' \<and> o1 = Returned True")
    case True
    with assms(1) Some p r u have "q' = dict_set k ?t' q" and "a' = a1"
      by (auto simp: assign_tasks_agent_def Let_def)
    with g pe i show ?thesis by blast
  next
    case False
    with assms(1) Some p r have "q' = q"
      by (cases o1) (auto simp: assign_tasks_agent_def split: if_splits)
    then show ?thesis by simp
  qed
qed

lemma assign_tasks_agent_queue:
  assumes "assign_tasks_agent env a q w = (out, a', q', w')" and "keyed_by_id q"
  shows "keyed_by_id q' \<and> keeps_terminal q q'"
  using assign_tasks_agent_cases [OF assms] assms(2)
  by (auto simp: keeps_terminal_refl intro: keyed_dict_set keeps_terminal_pending)

lemma assign_tasks_loop_queue:
  "assign_tasks_loop env ags n q w = (out, ags', q', w') \<Longrightarrow> keyed_by_id q \<Longrightarrow>
     keyed_by_id q' \<and> keeps_terminal q q'"
proof (induction ags arbitrary: n q w out ags' q' w')
  case Nil
  then show ?case by (simp add: keeps_terminal_refl)
next
  case (Cons p ags)
  obtain k a where p: "p = (k, a)" by (cases p)
  obtain o1 a1 q1 w1 where s: "assign_tasks_agent env a q w = (o1, a1, q1, w1)"
    by (cases "assign_tasks_agent env a q w") auto
  note s1 = assign_tasks_agent_queue [OF s Cons.prems(2)]
  show ?case
  proof (cases o1)
    case (Raised e)
    with Cons.prems(1) p s have "q' = q1" by simp
    with s1 show ?thesis by simp
  next
    case (Returned m)
    obtain o2 r2 q2 w2 where l: "assign_tasks_loop env ags (n + m) q1 w1 = (o2, r2, q2, w2)"
      by (cases "assign_tasks_loop env ags (n + m) q1 w1") auto
    with Cons.prems(1) p s Returned have "q' = q2" by simp
    with Cons.IH [OF l] s1 show ?thesis by (auto intro: keeps_terminal_trans)
  qed
qed

lemma assign_tasks_queue:
  assumes "keyed_by_id (task_queue orch)"
  shows "keeps_terminal (task_queue orch) (task_queue (fst (snd (assign_tasks env orch w))))"
proof -
  obtain out ags q w' where l:
    "assign_tasks_loop env (agents orch) 0 (task_queue orch) w = (out, ags, q, w')"
    by (cases "assign_tasks_loop env (agents orch) 0 (task_queue orch) w") auto
  from assign_tasks_loop_queue [OF l assms] l show ?thesis by (simp add: assign_tasks_def)
qed

lemma monitor_progress_terminal:
  "stays_terminal (task_queue orch) (task_queue (fst (snd (monitor_progress env orch w))))"
proof -
  obtain out orch' w' where m: "monitor_loop env (agents orch) orch w = (out, orch', w')"
    by (cases "monitor_loop env (agents orch) orch w") auto
  from monitor_loop_terminal [OF m] m show ?thesis by (simp add: monitor_progress_def)
qed

lemma handle_completed_task_terminal:
  "stays_terminal (task_queue orch)
     (task_queue (fst (snd (handle_completed_task env task_id res orch w))))"
proof -
  obtain out orch' w' where m: "handle_completed_task env task_id res orch w = (out, orch', w')"
    by (cases "handle_completed_task env task_id res orch w") auto
  from handle_completed_task_queue [OF m] m show ?thesis
    by (auto simp: stays_terminal_def intro: settled_terminal)
qed

lemma handle_failed_task_terminal:
  "stays_terminal (task_queue orch)
     (task_queue (fst (snd (handle_failed_task env task_id res orch w))))"
proof -
  obtain out orch' w' where m: "handle_failed_task env task_id res orch w = (out, orch', w')"
    by (cases "handle_failed_task env task_id res orch w") auto
  from handle_failed_task_queue [OF m] m show ?thesis
    by (auto simp: stays_terminal_def intro: settled_terminal)
qed

text \<open>
  Claim C6, as the code has it. Take a task of the queue whose status is completed or
  failed, in a queue where every task is stored under its own ID. \<open>assign_tasks\<close> leaves
  that task as it is. \<open>monitor_progress\<close>, \<open>handle_completed_task\<close> and
  \<open>handle_failed_task\<close> leave it with a status that is again completed or failed, and
  with every attribute other than its status and result as it was. They can change the
  status of a completed task to failed and of a failed task to completed: nothing in
  them tests the status that the task has.
\<close>

theorem terminal_task_stays_terminal:
  "keyed_by_id (task_queue orch) \<and> dict_get (task_queue orch) k = Some t \<and>
   (status t = ''completed'' \<or> status t = ''failed'') \<longrightarrow>
     dict_get (task_queue (fst (snd (assign_tasks env orch w)))) k = Some t \<and>
     (\<exists>t'. dict_get (task_queue (fst (snd (monitor_progress env orch w)))) k = Some t' \<and>
        (status t' = ''completed'' \<or> status t' = ''failed'') \<and>
        t'\<lparr>status := status t, result := result t\<rparr> = t) \<and>
     (\<exists>t'. dict_get (task_queue (fst (snd (handle_completed_task env task_id res orch w)))) k
            = Some t' \<and>
        (status t' = ''completed'' \<or> status t' = ''failed'') \<and>
        t'\<lparr>status := status t, result := result t\<rparr> = t) \<and>
     (\<exists>t'. dict_get (task_queue (fst (snd (handle_failed_task env task_id res orch w)))) k
            = Some t' \<and>
        (status t' = ''completed'' \<or> status t' = ''failed'') \<and>
        t'\<lparr>status := status t, result := result t\<rparr> = t)"
proof (intro impI)
  assume h: "keyed_by_id (task_queue orch) \<and> dict_get (task_queue orch) k = Some t \<and>
   (status t = ''completed'' \<or> status t = ''failed'')"
  then have kq: "keyed_by_id (task_queue orch)" and g: "dict_get (task_queue orch) k = Some t"
    and te: "terminal t" by (simp_all add: terminal_def)
  from assign_tasks_queue [OF kq, of env w] g te
  have 1: "dict_get (task_queue (fst (snd (assign_tasks env orch w)))) k = Some t"
    by (simp add: keeps_terminal_def)
  from monitor_progress_terminal [of orch env w] g te
  have 2: "\<exists>t'. dict_get (task_queue (fst (snd (monitor_progress env orch w)))) k = Some t' \<and>
        (status t' = ''completed'' \<or> status t' = ''failed'') \<and>
        t'\<lparr>status := status t, result := result t\<rparr> = t"
    unfolding stays_terminal_def terminal_def by blast
  from handle_completed_task_terminal [of orch env task_id res w] g te
  have 3: "\<exists>t'. dict_get (task_queue (fst (snd (handle_completed_task env task_id res orch w)))) k
            = Some t' \<and>
        (status t' = ''completed'' \<or> status t' = ''failed'') \<and>
        t'\<lparr>status := status t, result := result t\<rparr> = t"
    unfolding stays_terminal_def terminal_def by blast
  from handle_failed_task_terminal [of orch env task_id res w] g te
  have 4: "\<exists>t'. dict_get (task_queue (fst (snd (handle_failed_task env task_id res orch w)))) k
            = Some t' \<and>
        (status t' = ''completed'' \<or> status t' = ''failed'') \<and>
        t'\<lparr>status := status t, result := result t\<rparr> = t"
    unfolding stays_terminal_def terminal_def by blast
  from 1 2 3 4 show "dict_get (task_queue (fst (snd (assign_tasks env orch w)))) k = Some t \<and>
     (\<exists>t'. dict_get (task_queue (fst (snd (monitor_progress env orch w)))) k = Some t' \<and>
        (status t' = ''completed'' \<or> status t' = ''failed'') \<and>
        t'\<lparr>status := status t, result := result t\<rparr> = t) \<and>
     (\<exists>t'. dict_get (task_queue (fst (snd (handle_completed_task env task_id res orch w)))) k
            = Some t' \<and>
        (status t' = ''completed'' \<or> status t' = ''failed'') \<and>
        t'\<lparr>status := status t, result := result t\<rparr> = t) \<and>
     (\<exists>t'. dict_get (task_queue (fst (snd (handle_failed_task env task_id res orch w)))) k
            = Some t' \<and>
        (status t' = ''completed'' \<or> status t' = ''failed'') \<and>
        t'\<lparr>status := status t, result := result t\<rparr> = t)" by (intro conjI)
qed

lemma demo_monitored_pair:
  "demo_monitored =
     (\<lparr>agents = [(''coder_1a2b3c4d'', fst demo_assigned)],
       task_queue =
         [(''a'', (demo_task ''a'' ''2024-01-02T00:00:00'' 1)
                   \<lparr>status := ''completed'', assigned_to := Some ''coder_1a2b3c4d'',
                     result := PDict (demo_progress ''completed'')\<rparr>),
          (''b'', demo_task ''b'' ''2024-01-01T00:00:00'' 1)],
       logger_o = [(Info, ''Task {} completed successfully'', [PStr ''a''])]\<rparr>,
      demo_reported ''completed'' (snd demo_assigned))"
proof -
  have w: "snd demo_running = snd demo_assigned" by (simp add: demo_running_eq)
  show ?thesis by (simp add: demo_monitored_def demo_monitored_eq)
qed

lemma demo_monitored_keyed: "keyed_by_id (task_queue (fst demo_monitored))"
  by (simp add: demo_monitored_pair keyed_by_id_def demo_task_def Task_init_def)

lemma demo_failed_record:
  "get_world_state (mock_env now) (''task_progress:'', PStr ''a'')
     (demo_reported ''failed'' (snd demo_monitored))
   = (Returned (PDict (demo_progress ''failed'')), demo_reported ''failed'' (snd demo_monitored))"
  by (simp add: demo_monitored_pair demo_reported_eq)
     (simp add: demo_reported_def mock_env_def mock_get_def dict_get_def demo_assigned_eq
        assignment_record_def)

lemma monitor_progress_single:
  "agents orch = [(k, a)] \<Longrightarrow>
     fst (snd (monitor_progress env orch w)) = fst (snd (monitor_agent env a orch w))"
  by (cases "monitor_agent env a orch w")
     (auto simp: monitor_progress_def split: outcome.splits)

theorem terminal_task_stays_terminal_witness:
  "keyed_by_id (task_queue (fst demo_monitored)) \<and>
   dict_get (task_queue (fst demo_monitored)) ''a''
     = Some ((demo_task ''a'' ''2024-01-02T00:00:00'' 1)
              \<lparr>status := ''completed'', assigned_to := Some ''coder_1a2b3c4d'',
                result := PDict (demo_progress ''completed'')\<rparr>) \<and>
   dict_get (task_queue (fst (snd (assign_tasks (mock_env ''2024-01-08T00:00:00'')
       (fst demo_monitored) (snd demo_monitored))))) ''a''
     = Some ((demo_task ''a'' ''2024-01-02T00:00:00'' 1)
              \<lparr>status := ''completed'', assigned_to := Some ''coder_1a2b3c4d'',
                result := PDict (demo_progress ''completed'')\<rparr>) \<and>
   (\<exists>t'. dict_get (task_queue (fst (snd (monitor_progress (mock_env ''2024-01-08T00:00:00'')
              (fst demo_monitored) (snd demo_monitored))))) ''a'' = Some t' \<and>
      (status t' = ''completed'' \<or> status t' = ''failed'') \<and> priority t' = 1) \<and>
   (\<exists>t'. dict_get (task_queue (fst (snd (handle_failed_task (mock_env ''2024-01-08T00:00:00'')
              (PStr ''a'') [(''message'', PStr ''late error'')]
              (fst demo_monitored) (snd demo_monitored))))) ''a'' = Some t' \<and>
      (status t' = ''completed'' \<or> status t' = ''failed'') \<and> priority t' = 1)"
proof -
  let ?env = "mock_env ''2024-01-08T00:00:00''"
  let ?t = "(demo_task ''a'' ''2024-01-02T00:00:00'' 1)
              \<lparr>status := ''completed'', assigned_to := Some ''coder_1a2b3c4d'',
                result := PDict (demo_progress ''completed'')\<rparr>"
  have g: "dict_get (task_queue (fst demo_monitored)) ''a'' = Some ?t"
    by (simp add: demo_monitored_pair dict_get_def)
  have s: "status ?t = ''completed'' \<or> status ?t = ''failed''" by simp
  have p: "priority ?t = 1" by (simp add: demo_task_def Task_init_def)
  note th = terminal_task_stays_terminal
    [of "fst demo_monitored" "''a''" ?t ?env "snd demo_monitored" "PStr ''a''"
      "[(''message'', PStr ''late error'')]",
      rule_format, OF conjI [OF demo_monitored_keyed conjI [OF g s]]]
  note 1 = th [THEN conjunct1]
  from th [THEN conjunct2, THEN conjunct1] obtain t'
    where a: "dict_get (task_queue (fst (snd (monitor_progress ?env
              (fst demo_monitored) (snd demo_monitored))))) ''a'' = Some t'"
      and b: "status t' = ''completed'' \<or> status t' = ''failed''"
      and c: "t'\<lparr>status := status ?t, result := result ?t\<rparr> = ?t" by (elim exE conjE)
  from c have "priority (t'\<lparr>status := status ?t, result := result ?t\<rparr>) = priority ?t"
    by (rule arg_cong)
  with p have "priority t' = 1" by simp
  with a b have 2: "\<exists>t'. dict_get (task_queue (fst (snd (monitor_progress ?env
              (fst demo_monitored) (snd demo_monitored))))) ''a'' = Some t' \<and>
      (status t' = ''completed'' \<or> status t' = ''failed'') \<and> priority t' = 1" by blast
  from th [THEN conjunct2, THEN conjunct2, THEN conjunct2] obtain t'
    where a: "dict_get (task_queue (fst (snd (handle_failed_task ?env (PStr ''a'')
              [(''message'', PStr ''late error'')]
              (fst demo_monitored) (snd demo_monitored))))) ''a'' = Some t'"
      and b: "status t' = ''completed'' \<or> status t' = ''failed''"
      and c: "t'\<lparr>status := status ?t, result := result ?t\<rparr> = ?t" by (elim exE conjE)
  from c have "priority (t'\<lparr>status := status ?t, result := result ?t\<rparr>) = priority ?t"
    by (rule arg_cong)
  with p have "priority t' = 1" by simp
  with a b have 3: "\<exists>t'. dict_get (task_queue (fst (snd (handle_failed_task ?env (PStr ''a'')
              [(''message'', PStr ''late error'')]
              (fst demo_monitored) (snd demo_monitored))))) ''a'' = Some t' \<and>
      (status t' = ''completed'' \<or> status t' = ''failed'') \<and> priority t' = 1" by blast
  from demo_monitored_keyed g 1 2 3 show ?thesis by (intro conjI)
qed

text \<open>
  Task \<open>a\<close> is completed. \<open>handle_failed_task\<close> is then run for it, and, separately,
  \<open>monitor_progress\<close> is run after a record with status failed has been written for it
  (its agent is still working on it): either way its status is failed afterwards.
\<close>

theorem completed_task_becomes_failed:
  "map_option status (dict_get (task_queue (fst demo_monitored)) ''a'') = Some ''completed'' \<and>
   map_option status
     (dict_get (task_queue (fst (snd (handle_failed_task (mock_env ''2024-01-08T00:00:00'')
        (PStr ''a'') [(''message'', PStr ''late error'')]
        (fst demo_monitored) (snd demo_monitored))))) ''a'') = Some ''failed'' \<and>
   map_option status
     (dict_get (task_queue (fst (snd (monitor_progress (mock_env ''2024-01-08T00:00:00'')
        (fst demo_monitored) (demo_reported ''failed'' (snd demo_monitored)))))) ''a'')
     = Some ''failed''"
proof -
  let ?env = "mock_env ''2024-01-08T00:00:00''"
  let ?orch = "fst demo_monitored"
  have 1: "map_option status (dict_get (task_queue ?orch) ''a'') = Some ''completed''"
    by (simp add: demo_monitored_pair dict_get_def)
  have q: "\<And>res. map_option status
      (dict_get (settled ''failed'' res (PStr ''a'') (task_queue ?orch)) ''a'') = Some ''failed''"
    by (simp add: settled_def demo_monitored_pair dict_get_def)
  obtain o2 orch2 w2 where h: "handle_failed_task ?env (PStr ''a'')
      [(''message'', PStr ''late error'')] ?orch (snd demo_monitored) = (o2, orch2, w2)"
    by (cases "handle_failed_task ?env (PStr ''a'') [(''message'', PStr ''late error'')]
          ?orch (snd demo_monitored)") auto
  from handle_failed_task_queue [OF h] q h
  have 2: "map_option status
     (dict_get (task_queue (fst (snd (handle_failed_task ?env
        (PStr ''a'') [(''message'', PStr ''late error'')]
        ?orch (snd demo_monitored))))) ''a'') = Some ''failed''" by simp
  have ag: "agents ?orch = [(''coder_1a2b3c4d'', fst demo_assigned)]"
    by (simp add: demo_monitored_pair)
  have s: "dict_get (demo_progress ''failed'') ''status'' = Some (PStr ''failed'')"
    by (simp add: demo_progress_def dict_get_def)
  let ?w = "demo_reported ''failed'' (snd demo_monitored)"
  have m: "monitor_agent ?env (fst demo_assigned) ?orch ?w
      = handle_failed_task ?env (PStr ''a'') (demo_progress ''failed'') ?orch ?w"
    by (rule monitor_agent_failed [OF demo_working demo_task_id demo_failed_record s])
  obtain o3 orch3 w3 where h3: "handle_failed_task ?env (PStr ''a'') (demo_progress ''failed'')
      ?orch ?w = (o3, orch3, w3)"
    by (cases "handle_failed_task ?env (PStr ''a'') (demo_progress ''failed'') ?orch ?w") auto
  from handle_failed_task_queue [OF h3] q h3 m
  have 3: "map_option status
     (dict_get (task_queue (fst (snd (monitor_progress ?env ?orch ?w)))) ''a'') = Some ''failed''"
    by (simp add: monitor_progress_single [OF ag])
  from 1 2 3 show ?thesis by (intro conjI)
qed

section \<open>An assignment that fails after the agent has taken the task\<close>

lemma to_dict_id: "subscript (to_dict t) ''id'' = Inr (PStr (id_t t))"
  by (simp add: subscript_def dict_get_def to_dict_def)

lemma sufficient_not_lacking:
  assumes "get_or task ''required_capabilities'' (PList []) = PList (map PStr rc)"
    and "set rc \<subseteq> set (capabilities a)"
  shows "lacks_capabilities a task = Inr False"
proof -
  from assms(2) have "list_all (cap_in (capabilities a)) (map PStr rc)"
    by (auto simp: list_all_iff)
  then show ?thesis by (simp add: lacks_capabilities_def assms(1) bnd_def)
qed

lemma available_not_lacking:
  assumes "available q (capabilities a) t"
  shows "lacks_capabilities a (to_dict t) = Inr False"
proof (rule sufficient_not_lacking)
  show "get_or (to_dict t) ''required_capabilities'' (PList [])
          = PList (map PStr (required_capabilities t))"
    by (simp add: get_or_def dict_get_def to_dict_def)
  from assms show "set (required_capabilities t) \<subseteq> set (capabilities a)"
    by (auto simp: available_def list_all_iff split: if_splits)
qed

lemma assign_task_body_world_fails:
  assumes "subscript task ''id'' = Inr i"
    and "store_short_term env (''task:'', i) (PDict task) w = (Returned (), w1)"
    and "datetime_now env w1 = (now, w2)"
    and "update_world_state env (''task_assignment:'', i) (assignment_record (id_a a) now) w2
           = (Raised e, w3)"
  shows "assign_task_body env task a w =
           (Raised e,
            log_a Info ''Assigned task {} to agent {}'' [i, PStr (name a)]
              (a\<lparr>current_task := Some task, status_a := ''working''\<rparr>), w3)"
  using assms by (simp add: assign_task_body_def Let_def)

lemma assign_task_world_fails:
  assumes "status_a a = ''idle''" and "lacks_capabilities a task = Inr False"
    and "subscript task ''id'' = Inr i"
    and "store_short_term env (''task:'', i) (PDict task) w = (Returned (), w1)"
    and "datetime_now env w1 = (now, w2)"
    and "update_world_state env (''task_assignment:'', i) (assignment_record (id_a a) now) w2
           = (Raised e, w3)"
    and "is_Exception e"
  shows "assign_task env task a w =
           (Returned False,
            log_a Error ''Failed to assign task {}: {}'' [i]
              (log_a Info ''Assigned task {} to agent {}'' [i, PStr (name a)]
                (a\<lparr>current_task := Some task, status_a := ''working''\<rparr>)), w3)"
  using assms(1,2,3,7) assign_task_body_world_fails [OF assms(3,4,5,6)]
  by (simp add: assign_task_def)

text \<open>
  Claim C10. An idle agent is given a task whose required capabilities are all among
  its own; \<open>store_short_term\<close> returns and \<open>update_world_state\<close> then raises an
  exception. \<open>assign_task\<close> returns \<open>False\<close>, and the agent has status working and the
  task as its current task. When the task is the one \<open>get_next_task\<close> selects for the
  agent in \<open>assign_tasks\<close>, the step of \<open>assign_tasks\<close> for the agent counts no assignment
  and leaves the queue as it was: the task is still in the queue with status pending,
  and the agent is busy with it.
\<close>

theorem assign_task_not_rolled_back:
  "(status_a a = ''idle'' \<and>
    get_or task ''required_capabilities'' (PList []) = PList (map PStr rc) \<and>
    set rc \<subseteq> set (capabilities a) \<and>
    subscript task ''id'' = Inr i \<and>
    store_short_term env (''task:'', i) (PDict task) w = (Returned (), w1) \<and>
    datetime_now env w1 = (now, w2) \<and>
    update_world_state env (''task_assignment:'', i) (assignment_record (id_a a) now) w2
      = (Raised e, w3) \<and>
    is_Exception e \<longrightarrow>
      (\<exists>a'. assign_task env task a w = (Returned False, a', w3) \<and>
         status_a a' = ''working'' \<and> current_task a' = Some task)) \<and>
   (status_a a = ''idle'' \<and> get_next_task q (capabilities a) = Some t \<and>
    store_short_term env (''task:'', PStr (id_t t)) (PDict (to_dict t)) w = (Returned (), w1) \<and>
    datetime_now env w1 = (now, w2) \<and>
    update_world_state env (''task_assignment:'', PStr (id_t t))
        (assignment_record (id_a a) now) w2 = (Raised e, w3) \<and>
    is_Exception e \<longrightarrow>
      (\<exists>a'. assign_tasks_agent env a q w = (Returned 0, a', q, w3) \<and>
         status_a a' = ''working'' \<and> current_task a' = Some (to_dict t) \<and>
         t \<in> set (dict_values q) \<and> status t = ''pending''))"
proof (intro conjI impI)
  assume h: "status_a a = ''idle'' \<and>
    get_or task ''required_capabilities'' (PList []) = PList (map PStr rc) \<and>
    set rc \<subseteq> set (capabilities a) \<and>
    subscript task ''id'' = Inr i \<and>
    store_short_term env (''task:'', i) (PDict task) w = (Returned (), w1) \<and>
    datetime_now env w1 = (now, w2) \<and>
    update_world_state env (''task_assignment:'', i) (assignment_record (id_a a) now) w2
      = (Raised e, w3) \<and>
    is_Exception e"
  note h1 = h [THEN conjunct1] and h2 = h [THEN conjunct2, THEN conjunct1]
    and h3 = h [THEN conjunct2, THEN conjunct2, THEN conjunct1]
    and h4 = h [THEN conjunct2, THEN conjunct2, THEN conjunct2, THEN conjunct1]
    and h5 = h [THEN conjunct2, THEN conjunct2, THEN conjunct2, THEN conjunct2, THEN conjunct1]
    and h6 = h [THEN conjunct2, THEN conjunct2, THEN conjunct2, THEN conjunct2, THEN conjunct2, THEN conjunct1]
    and h7 = h [THEN conjunct2, THEN conjunct2, THEN conjunct2, THEN conjunct2, THEN conjunct2, THEN conjunct2, THEN conjunct1]
    and h8 = h [THEN conjunct2, THEN conjunct2, THEN conjunct2, THEN conjunct2, THEN conjunct2, THEN conjunct2, THEN conjunct2]
  have l: "lacks_capabilities a task = Inr False" by (rule sufficient_not_lacking [OF h2 h3])
  have "assign_task env task a w =
           (Returned False,
            log_a Error ''Failed to assign task {}: {}'' [i]
              (log_a Info ''Assigned task {} to agent {}'' [i, PStr (name a)]
                (a\<lparr>current_task := Some task, status_a := ''working''\<rparr>)), w3)"
    by (rule assign_task_world_fails [OF h1 l h4 h5 h6 h7 h8])
  then show "\<exists>a'. assign_task env task a w = (Returned False, a', w3) \<and>
         status_a a' = ''working'' \<and> current_task a' = Some task" by simp
next
  assume h: "status_a a = ''idle'' \<and> get_next_task q (capabilities a) = Some t \<and>
    store_short_term env (''task:'', PStr (id_t t)) (PDict (to_dict t)) w = (Returned (), w1) \<and>
    datetime_now env w1 = (now, w2) \<and>
    update_world_state env (''task_assignment:'', PStr (id_t t))
        (assignment_record (id_a a) now) w2 = (Raised e, w3) \<and>
    is_Exception e"
  note h1 = h [THEN conjunct1] and h2 = h [THEN conjunct2, THEN conjunct1]
    and h3 = h [THEN conjunct2, THEN conjunct2, THEN conjunct1]
    and h4 = h [THEN conjunct2, THEN conjunct2, THEN conjunct2, THEN conjunct1]
    and h5 = h [THEN conjunct2, THEN conjunct2, THEN conjunct2, THEN conjunct2, THEN conjunct1]
    and h6 = h [THEN conjunct2, THEN conjunct2, THEN conjunct2, THEN conjunct2, THEN conjunct2]
  from h2 have "map_option snd (get_next_entry q (capabilities a)) = Some t"
    by (simp add: get_next_entry_task)
  then obtain k where ne: "get_next_entry q (capabilities a) = Some (k, t)" by auto
  from get_next_entry_Some [OF ne]
  have mem: "(k, t) \<in> set q" and av: "available q (capabilities a) t" by simp_all
  from mem have m: "t \<in> set (dict_values q)" by (force simp: dict_values_def)
  from av have p: "status t = ''pending''" by (simp add: available_def split: if_splits)
  note l = available_not_lacking [OF av]
  have r: "assign_task env (to_dict t) a w =
           (Returned False,
            log_a Error ''Failed to assign task {}: {}'' [PStr (id_t t)]
              (log_a Info ''Assigned task {} to agent {}'' [PStr (id_t t), PStr (name a)]
                (a\<lparr>current_task := Some (to_dict t), status_a := ''working''\<rparr>)), w3)"
    by (rule assign_task_world_fails [OF h1 l to_dict_id h3 h4 h5 h6])
  let ?a' = "log_a Error ''Failed to assign task {}: {}'' [PStr (id_t t)]
              (log_a Info ''Assigned task {} to agent {}'' [PStr (id_t t), PStr (name a)]
                (a\<lparr>current_task := Some (to_dict t), status_a := ''working''\<rparr>))"
  from h1 ne r have x: "assign_tasks_agent env a q w = (Returned 0, ?a', q, w3)"
    by (simp add: assign_tasks_agent_def)
  have y: "status_a ?a' = ''working''" "current_task ?a' = Some (to_dict t)" by simp_all
  from x y m p show "\<exists>a'. assign_tasks_agent env a q w = (Returned 0, a', q, w3) \<and>
         status_a a' = ''working'' \<and> current_task a' = Some (to_dict t) \<and>
         t \<in> set (dict_values q) \<and> status t = ''pending''"
    by (intro exI [of _ ?a'] conjI)
qed

theorem assign_task_not_rolled_back_witness:
  "status_a demo_agent = ''idle'' \<and>
   set [''python''] \<subseteq> set (capabilities demo_agent) \<and>
   (\<exists>a'. assign_task (unwritable_world_env ''2024-01-05T00:00:00'')
            (to_dict ((demo_task ''a'' ''2024-01-02T00:00:00'' 1)
                        \<lparr>required_capabilities := [''python'']\<rparr>))
            demo_agent MockMTMAClient_init
          = (Returned False, a',
             MockMTMAClient_init\<lparr>short_term :=
               [((''task:'', PStr ''a''),
                 PDict (to_dict ((demo_task ''a'' ''2024-01-02T00:00:00'' 1)
                                   \<lparr>required_capabilities := [''python'']\<rparr>)))]\<rparr>) \<and>
      status_a a' = ''working'' \<and>
      current_task a' = Some (to_dict ((demo_task ''a'' ''2024-01-02T00:00:00'' 1)
                                         \<lparr>required_capabilities := [''python'']\<rparr>))) \<and>
   get_next_task late_first_queue (capabilities demo_agent)
     = Some (demo_task ''a'' ''2024-01-02T00:00:00'' 1) \<and>
   (\<exists>a'. assign_tasks_agent (unwritable_world_env ''2024-01-05T00:00:00'') demo_agent
            late_first_queue MockMTMAClient_init
          = (Returned 0, a', late_first_queue,
             MockMTMAClient_init\<lparr>short_term :=
               [((''task:'', PStr ''a''),
                 PDict (to_dict (demo_task ''a'' ''2024-01-02T00:00:00'' 1)))]\<rparr>) \<and>
      status_a a' = ''working'' \<and>
      current_task a' = Some (to_dict (demo_task ''a'' ''2024-01-02T00:00:00'' 1)) \<and>
      demo_task ''a'' ''2024-01-02T00:00:00'' 1 \<in> set (dict_values late_first_queue) \<and>
      status (demo_task ''a'' ''2024-01-02T00:00:00'' 1) = ''pending'') \<and>
   assigned_to (demo_task ''a'' ''2024-01-02T00:00:00'' 1) = None"
proof -
  let ?now = "''2024-01-05T00:00:00''"
  let ?env = "unwritable_world_env ?now"
  let ?t = "demo_task ''a'' ''2024-01-02T00:00:00'' 1"
  let ?tp = "?t\<lparr>required_capabilities := [''python'']\<rparr>"
  let ?m = "MockMTMAClient_init"
  let ?w1 = "\<lambda>task. ?m\<lparr>short_term := [((''task:'', PStr ''a''), PDict task)]\<rparr>"
  have idle: "status_a demo_agent = ''idle''" and caps: "capabilities demo_agent = [''python'']"
    and ida: "id_a demo_agent = ''coder_1a2b3c4d''"
    by (simp_all add: demo_agent_def Agent_init_def)
  have sub: "set [''python''] \<subseteq> set (capabilities demo_agent)" by (simp add: caps)
  have idt: "id_t ?t = ''a''" "id_t ?tp = ''a''" by (simp_all add: demo_task_def Task_init_def)
  have rq: "get_or (to_dict ?tp) ''required_capabilities'' (PList []) = PList (map PStr [''python''])"
    by (simp add: get_or_def dict_get_def to_dict_def)
  have i: "subscript (to_dict ?tp) ''id'' = Inr (PStr ''a'')" by (simp add: to_dict_id idt)
  have st: "\<And>task. store_short_term ?env (''task:'', PStr ''a'') (PDict task) ?m
      = (Returned (), ?w1 task)"
    by (simp add: unwritable_world_env_def mock_env_def MockMTMAClient_init_def)
  have st': "store_short_term ?env (''task:'', PStr (id_t ?t)) (PDict (to_dict ?t)) ?m
      = (Returned (), ?w1 (to_dict ?t))"
    by (simp only: idt st)
  have dn: "\<And>m. datetime_now ?env m = (?now, m)"
    by (simp add: unwritable_world_env_def mock_env_def)
  have up: "\<And>key v m. update_world_state ?env key v m = (Raised (Collaborator ''unavailable''), m)"
    by (simp add: unwritable_world_env_def)
  have ex: "is_Exception (Collaborator ''unavailable'')" by simp
  have nx: "get_next_task late_first_queue (capabilities demo_agent) = Some ?t"
    by (simp add: caps get_next_entry_task [symmetric] late_first_entry)
  have as: "assigned_to ?t = None" by (simp add: demo_task_def Task_init_def)
  note th = assign_task_not_rolled_back [of demo_agent _ _ _ ?env ?m _ ?now _
    "Collaborator ''unavailable''"]
  note a = th [of "to_dict ?tp" "[''python'']" "PStr ''a''" "?w1 (to_dict ?tp)" "?w1 (to_dict ?tp)"
    "?w1 (to_dict ?tp)", THEN conjunct1, rule_format,
    OF conjI [OF idle conjI [OF rq conjI [OF sub conjI [OF i conjI [OF st
      conjI [OF dn conjI [OF up ex]]]]]]]]
  note b = th [of _ _ _ "?w1 (to_dict ?t)" "?w1 (to_dict ?t)" "?w1 (to_dict ?t)"
    late_first_queue ?t, THEN conjunct2, rule_format,
    OF conjI [OF idle conjI [OF nx conjI [OF st' conjI [OF dn conjI [OF up ex]]]]]]
  from idle sub a nx b as show ?thesis by (intro conjI)
qed

end
